theory Spec2Isabelle
  imports Complex_Main "HOL-Library.Char_ord" "HOL-Library.List_Lexorder" "HOL-Library.Sublist"
begin

section \<open>JavaScript values used by the CLI\<close>

text \<open>
  Strings of the program are modelled as \<^typ>\<open>string\<close>; \<open>length\<close> stands for the
  \<open>.length\<close> of a JavaScript string, which agrees with it on ASCII text. The one
  non-ASCII glyph the tool handlers put in front of their diagnostics is kept as a
  named constant holding its UTF-8 bytes.
\<close>

definition cross_mark :: string where
  "cross_mark = [CHR 0xE2, CHR 0x9D, CHR 0x8C]"

definition check_mark :: string where
  "check_mark = [CHR 0xE2, CHR 0x9C, CHR 0x85]"

text \<open>Decimal rendering of a number inside a template literal.\<close>

definition digit_char :: "nat \<Rightarrow> char" where
  "digit_char d = char_of (48 + d)"

fun show_nat :: "nat \<Rightarrow> string" where
  "show_nat n = (if n < 10 then [digit_char n] else show_nat (n div 10) @ [digit_char (n mod 10)])"

declare show_nat.simps [simp del]

text \<open>
  Parsed JSON: the arguments of a tool call, the steps of a tool chain, a store file. An
  object keeps its members in the order in which the engine enumerates them, which is
  the order of \<open>Object.keys\<close> and of \<open>JSON.stringify\<close>.
\<close>

datatype json =
    JNull
  | JBool bool
  | JNum int
  | JStr string
  | JArr "json list"
  | JObj "(string \<times> json) list"

text \<open>
  Property access \<open>v.k\<close> with a fixed name \<open>k\<close>: the member of the object itself,
  \<open>None\<close> for \<open>undefined\<close>. None of the names that the program reads in this way is
  the name of a member that a value inherits from its prototype; where the key is
  computed, \<open>lookup\<close> below takes the inherited members in. Reading a property of
  \<open>null\<close> throws a TypeError, which the callers below handle before they get here.
\<close>

fun field :: "json \<Rightarrow> string \<Rightarrow> json option" where
  "field (JObj kvs) k = map_of kvs k"
| "field _ k = None"

text \<open>JavaScript truthiness, as used by \<open>||\<close> and \<open>!\<close>.\<close>

fun truthy :: "json option \<Rightarrow> bool" where
  "truthy None = False"
| "truthy (Some JNull) = False"
| "truthy (Some (JBool b)) = b"
| "truthy (Some (JNum n)) = (n \<noteq> 0)"
| "truthy (Some (JStr s)) = (s \<noteq> [])"
| "truthy (Some (JArr _)) = True"
| "truthy (Some (JObj _)) = True"

text \<open>
  How a value prints inside a template literal, for the values that occur below;
  numbers are the integers.
\<close>

definition show_int :: "int \<Rightarrow> string" where
  "show_int i = (if i < 0 then CHR ''-'' # show_nat (nat (- i)) else show_nat (nat i))"

fun intercalate :: "string \<Rightarrow> string list \<Rightarrow> string" where
  "intercalate sep [] = []"
| "intercalate sep [x] = x"
| "intercalate sep (x # y # ys) = x @ sep @ intercalate sep (y # ys)"

fun template_text :: "json option \<Rightarrow> string" where
  "template_text None = ''undefined''"
| "template_text (Some JNull) = ''null''"
| "template_text (Some (JBool b)) = (if b then ''true'' else ''false'')"
| "template_text (Some (JNum n)) = show_int n"
| "template_text (Some (JStr s)) = s"
| "template_text (Some (JArr xs)) =
     intercalate '','' (map (\<lambda>x. if x = JNull then [] else template_text (Some x)) xs)"
| "template_text (Some (JObj _)) = ''[object Object]''"

text \<open>
  The outcome of a call that may throw: of an \<open>async\<close> function, the promise resolved
  or rejected.
\<close>

datatype 'a completion = Returned 'a | Threw string

section \<open>The file system and \<open>readFile\<close>\<close>

text \<open>
  What the handlers see of the disk: a path is absent, a directory, or a regular file
  whose read either yields its text or throws with a message.
\<close>

datatype node = Directory | RegFile string | Unreadable string

type_synonym fs = "string \<rightharpoonup> node"

text \<open>
  \<open>path.resolve\<close> is a function of the platform: it returns the absolute path, or
  throws (\<open>Inl\<close> the message) when its argument is not a string.
\<close>

type_synonym resolver = "json option \<Rightarrow> string + string"

definition existsSync :: "fs \<Rightarrow> string \<Rightarrow> bool" where
  "existsSync disk file = (disk file \<noteq> None)"

definition isFile :: "fs \<Rightarrow> string \<Rightarrow> bool" where
  "isFile disk file = (case disk file of Some (RegFile _) \<Rightarrow> True | Some (Unreadable _) \<Rightarrow> True | _ \<Rightarrow> False)"

text \<open>\<open>fs.readFileSync(file, "utf8")\<close>: \<open>Inl\<close> is the message of the exception.\<close>

definition readFileSync :: "fs \<Rightarrow> string \<Rightarrow> string + string" where
  "readFileSync disk file =
     (case disk file of
        Some (RegFile d) \<Rightarrow> Inr d
      | Some (Unreadable e) \<Rightarrow> Inl e
      | Some Directory \<Rightarrow> Inl ''EISDIR: illegal operation on a directory, read''
      | None \<Rightarrow> Inl ''ENOENT: no such file or directory'')"

definition truncation_marker :: "nat \<Rightarrow> string" where
  "truncation_marker n = ''\<newline>...[TRUNCATED: '' @ show_nat n @ '' bytes]...''"

text \<open>
  \<open>readFile(p)\<close> of index.js. The whole body sits in one \<open>try\<close>; each exception
  becomes the \<open>Read error\<close> string.
\<close>

definition readFile :: "resolver \<Rightarrow> fs \<Rightarrow> json option \<Rightarrow> string" where
  "readFile rslv disk p =
     (case rslv p of
        Inl e \<Rightarrow> cross_mark @ '' Read error: '' @ e
      | Inr file \<Rightarrow>
          if \<not> existsSync disk file \<or> \<not> isFile disk file
          then cross_mark @ '' File not found: '' @ file
          else (case readFileSync disk file of
                  Inl e \<Rightarrow> cross_mark @ '' Read error: '' @ e
                | Inr d \<Rightarrow>
                    if length d > 50000 then take 50000 d @ truncation_marker (length d)
                    else d))"

section \<open>The confirmation dialog\<close>

text \<open>
  What the user does at a prompt of index.js: types a line, or lets the ten-second timer
  run out.
\<close>

datatype decision = Answer string | Timeout

text \<open>
  The part of the outside world the tool handlers read and change: the disk, the
  decisions the user will give at the coming prompts, and the record of every call of
  \<open>confirm\<close> made so far (action, detail, \<open>auto_yes\<close>).
\<close>

record world =
  disk :: fs
  decisions :: "decision list"
  gate :: "(string \<times> json option \<times> bool) list"

definition is_space :: "char \<Rightarrow> bool" where
  "is_space c = (c \<in> set [CHR '' '', CHR 0x09, CHR 0x0A, CHR 0x0B, CHR 0x0C, CHR 0x0D])"

text \<open>\<open>String.prototype.trim\<close> and \<open>toLowerCase\<close>, on ASCII text.\<close>

definition js_trim :: "string \<Rightarrow> string" where
  "js_trim s = rev (dropWhile is_space (rev (dropWhile is_space s)))"

definition lower_char :: "char \<Rightarrow> char" where
  "lower_char c = (if CHR ''A'' \<le> c \<and> c \<le> CHR ''Z'' then char_of (of_char c + (32::nat)) else c)"

definition toLowerCase :: "string \<Rightarrow> string" where
  "toLowerCase s = map lower_char s"

text \<open>Whether \<open>detail.slice(0, 500)\<close> can be evaluated: strings and arrays have \<open>slice\<close>.\<close>

fun sliceable :: "json option \<Rightarrow> bool" where
  "sliceable (Some (JStr _)) = True"
| "sliceable (Some (JArr _)) = True"
| "sliceable _ = False"

definition slice_error :: "json option \<Rightarrow> string" where
  "slice_error detail =
     (case detail of
        None \<Rightarrow> ''Cannot read properties of undefined (reading 'slice')''
      | Some JNull \<Rightarrow> ''Cannot read properties of null (reading 'slice')''
      | _ \<Rightarrow> ''detail.slice is not a function'')"

text \<open>
  \<open>confirm(action, detail, auto_yes)\<close> of index.js. With \<open>auto_yes\<close> it answers at
  once. Otherwise it first renders \<open>detail.slice(0, 500)\<close>, which throws inside the
  promise when \<open>detail\<close> has no \<open>slice\<close>; then the first event decides: the typed
  line \<open>y\<close> approves, any other line cancels, and the timer approves. When no line is
  ever typed the timer fires.
\<close>

definition confirm :: "string \<Rightarrow> json option \<Rightarrow> bool \<Rightarrow> world \<Rightarrow> bool completion \<times> world" where
  "confirm action detail auto_yes w =
     (let w1 = w\<lparr>gate := gate w @ [(action, detail, auto_yes)]\<rparr> in
      if auto_yes then (Returned True, w1)
      else if \<not> sliceable detail then (Threw (slice_error detail), w1)
      else (case decisions w1 of
              [] \<Rightarrow> (Returned True, w1)
            | Timeout # rest \<Rightarrow> (Returned True, w1\<lparr>decisions := rest\<rparr>)
            | Answer a # rest \<Rightarrow>
                (Returned (toLowerCase (js_trim a) = ''y''), w1\<lparr>decisions := rest\<rparr>)))"

section \<open>\<open>writeFile\<close>\<close>

text \<open>
  Functions of Node and of the \<open>diff\<close> package that the handlers call. Each may throw
  (\<open>Inl\<close> the message). \<open>createTwoFilesPatch\<close> gets the file name, the old text and
  the new content; \<open>mkdirp\<close> is \<open>fs.mkdirSync(path.dirname(file), {recursive: true})\<close>;
  \<open>exec\<close> runs a shell command and hands back stdout, stderr and the exit code of
  a failure; \<open>fetch_http\<close> and \<open>fetch_search\<close> are the network calls of
  \<open>httpRequest\<close> and \<open>webSearch\<close>, the second with the scan of the result page;
  \<open>stringify\<close> is \<open>JSON.stringify(v, null, 2)\<close> and \<open>json_parse\<close> is
  \<open>JSON.parse\<close>, \<open>None\<close> when it throws a SyntaxError.
\<close>

record platform =
  resolve :: resolver
  path_join :: "string \<Rightarrow> string \<Rightarrow> string"
  readdirSync :: "fs \<Rightarrow> string \<Rightarrow> string + string list"
  createTwoFilesPatch :: "string \<Rightarrow> string \<Rightarrow> json option \<Rightarrow> string + string"
  mkdirp :: "fs \<Rightarrow> string \<Rightarrow> string + fs"
  exec :: "json option \<Rightarrow> fs \<Rightarrow> string + ((string \<times> string \<times> string option) \<times> fs)"
  fetch_http :: "json \<Rightarrow> (string \<times> string) + (string \<times> string \<times> string)"
  fetch_search :: "json \<Rightarrow> json option \<Rightarrow> string + json list"
  stringify :: "json \<Rightarrow> string"
  json_parse :: "string \<Rightarrow> json option"

text \<open>
  \<open>fs.writeFileSync(file, data)\<close>: it throws when the data is not a string and when
  the path is a directory or cannot be opened; otherwise the file holds the data.
\<close>

definition writeFileSync :: "fs \<Rightarrow> string \<Rightarrow> json option \<Rightarrow> string + fs" where
  "writeFileSync d file content =
     (case content of
        Some (JStr t) \<Rightarrow>
          (case d file of
             Some Directory \<Rightarrow> Inl ''EISDIR: illegal operation on a directory, open''
           | Some (Unreadable e) \<Rightarrow> Inl e
           | _ \<Rightarrow> Inr (d(file \<mapsto> RegFile t)))
      | _ \<Rightarrow> Inl ''The data argument must be of type string'')"

definition write_error :: "string \<Rightarrow> string" where
  "write_error e = cross_mark @ '' Write error: '' @ e"

text \<open>
  The two prompts of \<open>writeFile\<close>: \<open>Some r\<close> is the string returned at once,
  \<open>None\<close> lets the write go on. An exception of \<open>confirm\<close> lands in the
  \<open>catch\<close> of \<open>writeFile\<close>.
\<close>

definition write_gate :: "string \<Rightarrow> string \<Rightarrow> bool \<Rightarrow> world \<Rightarrow> string option \<times> world" where
  "write_gate file diff auto_yes w =
     (if js_trim diff \<noteq> [] \<and> length diff > 100 then
        (case confirm (''Write file: '' @ file) (Some (JStr (take 3000 diff))) auto_yes w of
           (Threw e, w') \<Rightarrow> (Some (write_error e), w')
         | (Returned ok, w') \<Rightarrow> (if \<not> ok then Some (cross_mark @ '' Write cancelled.'') else None, w'))
      else if \<not> existsSync (disk w) file then
        (case confirm ''Create new file'' (Some (JStr file)) auto_yes w of
           (Threw e, w') \<Rightarrow> (Some (write_error e), w')
         | (Returned ok, w') \<Rightarrow> (if \<not> ok then Some (cross_mark @ '' Creation cancelled.'') else None, w'))
      else (None, w))"

text \<open>The tail of \<open>writeFile\<close>: make the directory, write, report.\<close>

definition content_length :: "json option \<Rightarrow> string + string" where
  "content_length content =
     (case content of
        Some (JStr c) \<Rightarrow> Inr (show_nat (length c))
      | Some (JArr xs) \<Rightarrow> Inr (show_nat (length xs))
      | None \<Rightarrow> Inl ''Cannot read properties of undefined (reading 'length')''
      | Some JNull \<Rightarrow> Inl ''Cannot read properties of null (reading 'length')''
      | _ \<Rightarrow> Inr ''undefined'')"

definition write_commit :: "platform \<Rightarrow> string \<Rightarrow> json option \<Rightarrow> world \<Rightarrow> string \<times> world" where
  "write_commit pf file content w =
     (case mkdirp pf (disk w) file of
        Inl e \<Rightarrow> (write_error e, w)
      | Inr d1 \<Rightarrow>
          (case writeFileSync d1 file content of
             Inl e \<Rightarrow> (write_error e, w\<lparr>disk := d1\<rparr>)
           | Inr d2 \<Rightarrow>
               (case content_length content of
                  Inl e \<Rightarrow> (write_error e, w\<lparr>disk := d2\<rparr>)
                | Inr n \<Rightarrow>
                    (check_mark @ '' Written: '' @ file @ '' ('' @ n @ '' bytes)'',
                     w\<lparr>disk := d2\<rparr>))))"

text \<open>\<open>writeFile(p, content, auto_yes)\<close> of index.js.\<close>

definition writeFile :: "platform \<Rightarrow> json option \<Rightarrow> json option \<Rightarrow> bool \<Rightarrow> world \<Rightarrow> string \<times> world" where
  "writeFile pf p content auto_yes w =
     (case resolve pf p of
        Inl e \<Rightarrow> (write_error e, w)
      | Inr file \<Rightarrow>
          (case (if existsSync (disk w) file then readFileSync (disk w) file else Inr []) of
             Inl e \<Rightarrow> (write_error e, w)
           | Inr old \<Rightarrow>
               (case createTwoFilesPatch pf file old content of
                  Inl e \<Rightarrow> (write_error e, w)
                | Inr diff \<Rightarrow>
                    (case write_gate file diff auto_yes w of
                       (Some r, w') \<Rightarrow> (r, w')
                     | (None, w') \<Rightarrow> write_commit pf file content w'))))"

section \<open>The other tool handlers\<close>

definition isDirectory :: "fs \<Rightarrow> string \<Rightarrow> bool" where
  "isDirectory d file = (d file = Some Directory)"

text \<open>\<open>listDir(p)\<close> of index.js.\<close>

definition listDir :: "platform \<Rightarrow> fs \<Rightarrow> json option \<Rightarrow> string" where
  "listDir pf d p =
     (case resolve pf p of
        Inl e \<Rightarrow> cross_mark @ '' Error: '' @ e
      | Inr dir \<Rightarrow>
          if \<not> existsSync d dir \<or> \<not> isDirectory d dir
          then cross_mark @ '' Directory not found: '' @ dir
          else (case readdirSync pf d dir of
                  Inl e \<Rightarrow> cross_mark @ '' Error: '' @ e
                | Inr names \<Rightarrow>
                    intercalate ''\<newline>''
                      (sort (map (\<lambda>n. if isDirectory d (path_join pf dir n) then n @ ''/'' else n)
                         names))))"

text \<open>The text \<open>runShell\<close> builds from what \<open>exec\<close> hands to its callback.\<close>

definition shell_output :: "string \<times> string \<times> string option \<Rightarrow> string" where
  "shell_output r =
     (case r of (out, err, code) \<Rightarrow>
        (let output =
               (if out \<noteq> [] then [''STDOUT:\<newline>'' @ js_trim out] else []) @
               (if err \<noteq> [] then [''STDERR:\<newline>'' @ js_trim err] else []) @
               (case code of Some c \<Rightarrow> [''EXIT CODE: '' @ c] | None \<Rightarrow> []);
             joined = intercalate ''\<newline>\<newline>'' output
         in if joined \<noteq> [] then joined else check_mark @ '' Done (no output).''))"

text \<open>
  \<open>runShell(cmd, auto_yes)\<close> of index.js. Nothing here is inside a \<open>try\<close>: an
  exception of \<open>confirm\<close> or of \<open>exec\<close> rejects the promise.
\<close>

definition runShell :: "platform \<Rightarrow> json option \<Rightarrow> bool \<Rightarrow> world \<Rightarrow> string completion \<times> world" where
  "runShell pf cmd auto_yes w =
     (case confirm ''Shell command'' cmd auto_yes w of
        (Threw e, w') \<Rightarrow> (Threw e, w')
      | (Returned ok, w') \<Rightarrow>
          if \<not> ok then (Returned (cross_mark @ '' Cancelled.''), w')
          else (case exec pf cmd (disk w') of
                  Inl e \<Rightarrow> (Threw e, w')
                | Inr (r, d') \<Rightarrow> (Returned (shell_output r), w'\<lparr>disk := d'\<rparr>)))"

text \<open>
  \<open>httpRequest(args, auto_yes)\<close> of index.js. The parameter is destructured, which
  throws on \<open>null\<close>; \<open>method\<close> defaults to \<open>GET\<close> when absent.
\<close>

definition httpRequest :: "platform \<Rightarrow> json \<Rightarrow> bool \<Rightarrow> world \<Rightarrow> string completion \<times> world" where
  "httpRequest pf args auto_yes w =
     (if args = JNull then (Threw ''Cannot destructure property 'url' of null'', w)
      else if \<not> truthy (field args ''url'') then (Returned (cross_mark @ '' Error: url required''), w)
      else
        (let method = (case field args ''method'' of None \<Rightarrow> Some (JStr ''GET'') | m \<Rightarrow> m) in
         case confirm ''HTTP Request''
                (Some (JStr (template_text method @ '' '' @ template_text (field args ''url''))))
                auto_yes w of
           (Threw e, w') \<Rightarrow> (Threw e, w')
         | (Returned ok, w') \<Rightarrow>
             if \<not> ok then (Returned (cross_mark @ '' Cancelled.''), w')
             else (case fetch_http pf args of
                     Inl (nm, msg) \<Rightarrow>
                       (Returned (cross_mark @ '' HTTP Error: '' @
                          (if nm = ''AbortError'' then ''Timeout'' else msg)), w')
                   | Inr (status, headers, body) \<Rightarrow>
                       (let data = (if length body > 50000
                                    then take 50000 body @ ''\<newline>...[TRUNCATED]...'' else body)
                        in (Returned (intercalate ''\<newline>\<newline>''
                              [''STATUS: '' @ status, ''HEADERS: '' @ headers, ''BODY:\<newline>'' @ data]),
                            w')))))"

definition info_mark :: string where
  "info_mark = [CHR 0xE2, CHR 0x84, CHR 0xB9]"

text \<open>\<open>webSearch(args, auto_yes)\<close> of index.js; the prompt shows the query itself.\<close>

definition webSearch :: "platform \<Rightarrow> json \<Rightarrow> bool \<Rightarrow> world \<Rightarrow> string completion \<times> world" where
  "webSearch pf args auto_yes w =
     (if args = JNull then (Threw ''Cannot destructure property 'query' of null'', w)
      else if \<not> truthy (field args ''query'') then
        (Returned (cross_mark @ '' Error: query required''), w)
      else
        (case confirm ''Web Search'' (field args ''query'') auto_yes w of
           (Threw e, w') \<Rightarrow> (Threw e, w')
         | (Returned ok, w') \<Rightarrow>
             if \<not> ok then (Returned (cross_mark @ '' Cancelled.''), w')
             else (case fetch_search pf (the (field args ''query'')) (field args ''max_results'') of
                     Inl e \<Rightarrow> (Returned (cross_mark @ '' Search error: '' @ e), w')
                   | Inr results \<Rightarrow>
                       (Returned (if results = [] then info_mark @ '' No results.''
                                  else stringify pf (JArr results)), w'))))"

section \<open>Dispatch and tool chains\<close>

text \<open>\<open>s.replace(/^proxy_/, "")\<close>: one leading \<open>proxy_\<close> is removed.\<close>

definition clean_name :: "string \<Rightarrow> string" where
  "clean_name s = (if take 6 s = ''proxy_'' then drop 6 s else s)"

text \<open>\<open>x || {}\<close>.\<close>

definition or_empty :: "json option \<Rightarrow> json" where
  "or_empty v = (if truthy v then the v else JObj [])"

text \<open>One element of \<open>outputs\<close>: \<open>{ step, tool, result }\<close>.\<close>

record chain_entry =
  step :: nat
  tool :: "json option"
  result :: string

definition entry_json :: "chain_entry \<Rightarrow> json" where
  "entry_json e =
     JObj ([(''step'', JNum (int (step e)))] @
           (case tool e of None \<Rightarrow> [] | Some t \<Rightarrow> [(''tool'', t)]) @
           [(''result'', JStr (result e))])"

definition null_access :: "string \<Rightarrow> string" where
  "null_access k = ''Cannot read properties of null (reading '' @ [CHR 0x27] @ k @ [CHR 0x27] @ '')''"

lemma field_size: "field a k = Some v \<Longrightarrow> size v < size a"
proof (cases a)
  case (JObj kvs)
  assume "field a k = Some v"
  with JObj have "map_of kvs k = Some v" by simp
  then have "size v < size (JObj kvs)"
    by (induction kvs) (auto split: if_splits)
  with JObj show ?thesis by simp
qed simp_all

lemma or_empty_size: "size (or_empty (field s k)) \<le> max 1 (size s)"
  using field_size [of s k] by (cases "field s k") (auto simp: or_empty_def)

lemma step_args_size: "size (or_empty (field (or_empty (Some s)) k)) \<le> Suc (size s)"
proof (cases "truthy (Some s)")
  case True
  then have "or_empty (Some s) = s" by (simp add: or_empty_def)
  then show ?thesis using or_empty_size [of s k] by simp
next
  case False
  then have "or_empty (Some s) = JObj []" by (simp add: or_empty_def)
  then show ?thesis by (simp add: or_empty_def)
qed

function executeTool :: "platform \<Rightarrow> bool \<Rightarrow> json option \<Rightarrow> json \<Rightarrow> world \<Rightarrow> string completion \<times> world"
  and toolChain :: "platform \<Rightarrow> bool \<Rightarrow> json option \<Rightarrow> world \<Rightarrow> string completion \<times> world"
  and chain_loop :: "platform \<Rightarrow> bool \<Rightarrow> nat \<Rightarrow> json list \<Rightarrow> world \<Rightarrow> chain_entry list completion \<times> world"
where
  "executeTool pf auto_yes name args w =
     (case (if truthy name then name else Some (JStr [])) of
        Some (JStr s) \<Rightarrow>
          (let cleanName = clean_name s in
           if cleanName = ''list_dir'' then
             (if args = JNull then (Threw (null_access ''path''), w)
              else (Returned (listDir pf (disk w) (field args ''path'')), w))
           else if cleanName = ''read_file'' then
             (if args = JNull then (Threw (null_access ''path''), w)
              else (Returned (readFile (resolve pf) (disk w) (field args ''path'')), w))
           else if cleanName = ''write_file'' then
             (if args = JNull then (Threw (null_access ''path''), w)
              else (case writeFile pf (field args ''path'') (field args ''content'') auto_yes w of
                      (r, w') \<Rightarrow> (Returned r, w')))
           else if cleanName = ''run_shell'' then
             (if args = JNull then (Threw (null_access ''cmd''), w)
              else runShell pf (field args ''cmd'') auto_yes w)
           else if cleanName = ''http_request'' then httpRequest pf args auto_yes w
           else if cleanName = ''web_search'' then webSearch pf args auto_yes w
           else if cleanName = ''tool_chain'' then
             (if args = JNull then (Threw (null_access ''steps''), w)
              else toolChain pf auto_yes (field args ''steps'') w)
           else (Returned (cross_mark @ '' Unknown tool: '' @ template_text name), w))
      | _ \<Rightarrow> (Threw ''name.replace is not a function'', w))"
| "toolChain pf auto_yes steps w =
     (case steps of
        Some (JArr (x # xs)) \<Rightarrow>
          (case chain_loop pf auto_yes 0 (x # xs) w of
             (Threw e, w') \<Rightarrow> (Threw e, w')
           | (Returned outputs, w') \<Rightarrow>
               (Returned (stringify pf (JArr (map entry_json outputs))), w'))
      | _ \<Rightarrow> (Returned (cross_mark @ '' Error: steps empty''), w))"
| "chain_loop pf auto_yes i [] w = (Returned [], w)"
| "chain_loop pf auto_yes i (s # ss) w =
     (let st = or_empty (Some s);
          tl = field st ''tool'';
          args = or_empty (field st ''args'')
      in case executeTool pf auto_yes tl args w of
           (Threw e, w') \<Rightarrow> (Threw e, w')
         | (Returned r, w') \<Rightarrow>
             (case chain_loop pf auto_yes (i + 1) ss w' of
                (Threw e, w'') \<Rightarrow> (Threw e, w'')
              | (Returned outputs, w'') \<Rightarrow>
                  (Returned (\<lparr>step = i + 1, tool = tl, result = r\<rparr> # outputs), w'')))"
  by pat_completeness auto
termination
proof (relation "measure (\<lambda>x. case x of
          Inl (pf, a, n, args, w) \<Rightarrow> 2 * size args + 1
        | Inr (Inl (pf, a, steps, w)) \<Rightarrow> (case steps of None \<Rightarrow> 0 | Some st \<Rightarrow> 2 * size st + 1)
        | Inr (Inr (pf, a, i, ss, w)) \<Rightarrow> 2 * size_list size ss + 2)", goal_cases)
  case 1
  show ?case by simp
next
  case (2 pf auto_yes name args w x2 x4 cn)
  then show ?case
    using field_size [of args "''steps''"]
    by (cases "field args ''steps''") auto
next
  case (3 pf auto_yes steps w x2 x5 x21 x22)
  then show ?case by simp
next
  case (4 pf auto_yes i s ss w x xa xb)
  then show ?case using step_args_size [of s "''args''"] by simp
next
  case (5 pf auto_yes i s ss w x xa xb x1 y ya)
  then show ?case by simp
qed

declare executeTool.simps [simp del] toolChain.simps [simp del]

text \<open>The names of the registry \<open>TOOLS\<close>.\<close>

definition tool_names :: "string list" where
  "tool_names = [''list_dir'', ''read_file'', ''write_file'', ''run_shell'', ''http_request'',
                 ''web_search'', ''tool_chain'']"

text \<open>
  The \<open>switch\<close> of \<open>executeTool\<close> on the cleaned name, on its own; \<open>shown\<close> is
  the name as the fallback prints it.
\<close>

definition dispatch :: "platform \<Rightarrow> bool \<Rightarrow> string \<Rightarrow> string \<Rightarrow> json \<Rightarrow> world \<Rightarrow> string completion \<times> world" where
  "dispatch pf a cleanName shown args w =
          (if cleanName = ''list_dir'' then
             (if args = JNull then (Threw (null_access ''path''), w)
              else (Returned (listDir pf (disk w) (field args ''path'')), w))
           else if cleanName = ''read_file'' then
             (if args = JNull then (Threw (null_access ''path''), w)
              else (Returned (readFile (resolve pf) (disk w) (field args ''path'')), w))
           else if cleanName = ''write_file'' then
             (if args = JNull then (Threw (null_access ''path''), w)
              else (case writeFile pf (field args ''path'') (field args ''content'') a w of
                      (r, w') \<Rightarrow> (Returned r, w')))
           else if cleanName = ''run_shell'' then
             (if args = JNull then (Threw (null_access ''cmd''), w)
              else runShell pf (field args ''cmd'') a w)
           else if cleanName = ''http_request'' then httpRequest pf args a w
           else if cleanName = ''web_search'' then webSearch pf args a w
           else if cleanName = ''tool_chain'' then
             (if args = JNull then (Threw (null_access ''steps''), w)
              else toolChain pf a (field args ''steps'') w)
           else (Returned (cross_mark @ '' Unknown tool: '' @ shown), w))"



section \<open>Tool calls of an assistant message\<close>

text \<open>
  Property access on a value that may be \<open>undefined\<close> or \<open>null\<close>, where the source
  does it outside any \<open>try\<close>: a TypeError in those two cases.
\<close>

definition member_of :: "json option \<Rightarrow> string \<Rightarrow> json option completion" where
  "member_of v k =
     (case v of
        None \<Rightarrow> Threw (''Cannot read properties of undefined (reading '' @ [CHR 0x27] @ k @ [CHR 0x27] @ '')'')
      | Some JNull \<Rightarrow> Threw (null_access k)
      | Some x \<Rightarrow> Returned (field x k))"

text \<open>
  \<open>try { args = JSON.parse(call.function.arguments); } catch { args = {}; }\<close>.
  \<open>JSON.parse\<close> reads the text of its argument.
\<close>

definition decodeArgs :: "platform \<Rightarrow> json option \<Rightarrow> json" where
  "decodeArgs pf a = (case json_parse pf (template_text a) of None \<Rightarrow> JObj [] | Some v \<Rightarrow> v)"

text \<open>\<open>{ role: "tool", tool_call_id: call.id, content: result }\<close>.\<close>

definition tool_message :: "json option \<Rightarrow> string \<Rightarrow> json" where
  "tool_message cid r =
     JObj ([(''role'', JStr ''tool'')] @
           (case cid of None \<Rightarrow> [] | Some i \<Rightarrow> [(''tool_call_id'', i)]) @
           [(''content'', JStr r)])"

text \<open>
  The \<open>for\<close> loop of \<open>handleTools\<close> over \<open>msg.tool_calls\<close>; the conversation is
  the array \<open>messages\<close>, which the loop extends in place, so what was pushed stays
  pushed when a later call throws.
\<close>

fun tool_loop :: "platform \<Rightarrow> bool \<Rightarrow> json list \<Rightarrow> json list \<Rightarrow> world \<Rightarrow> unit completion \<times> json list \<times> world" where
  "tool_loop pf auto_yes [] ms w = (Returned (), ms, w)"
| "tool_loop pf auto_yes (call # calls) ms w =
     (case member_of (Some call) ''function'' of
        Threw e \<Rightarrow> (Threw e, ms, w)
      | Returned f \<Rightarrow>
          (case member_of f ''name'' of
             Threw e \<Rightarrow> (Threw e, ms, w)
           | Returned name \<Rightarrow>
               (let args = decodeArgs pf (field (the f) ''arguments'') in
                case executeTool pf auto_yes name args w of
                  (Threw e, w') \<Rightarrow> (Threw e, ms, w')
                | (Returned r, w') \<Rightarrow>
                    tool_loop pf auto_yes calls (ms @ [tool_message (field call ''id'') r]) w')))"

text \<open>
  \<open>handleTools(msg, messages, cfg)\<close> of index.js. A \<open>tool_calls\<close> that is truthy but
  no array has no numeric \<open>length\<close> unless it is a string, whose characters have no
  \<open>function\<close>.
\<close>

definition handleTools :: "platform \<Rightarrow> bool \<Rightarrow> json option \<Rightarrow> json list \<Rightarrow> world \<Rightarrow> bool completion \<times> json list \<times> world" where
  "handleTools pf auto_yes msg ms w =
     (case member_of msg ''tool_calls'' of
        Threw e \<Rightarrow> (Threw e, ms, w)
      | Returned tc \<Rightarrow>
          if \<not> truthy tc then (Returned False, ms, w)
          else (case tc of
                  Some (JArr []) \<Rightarrow> (Returned False, ms, w)
                | Some (JArr calls) \<Rightarrow>
                    (case tool_loop pf auto_yes calls (ms @ [the msg]) w of
                       (Threw e, ms', w') \<Rightarrow> (Threw e, ms', w')
                     | (Returned u, ms', w') \<Rightarrow> (Returned True, ms', w'))
                | Some (JStr s) \<Rightarrow>
                    (Threw ''Cannot read properties of undefined (reading 'name')'', ms @ [the msg], w)
                | _ \<Rightarrow> (Returned True, ms @ [the msg], w)))"

section \<open>The remote model\<close>

text \<open>
  A JavaScript number, for the step budget of the autopilot: a finite double is a
  rational number, and \<open>NaN\<close> and the two infinities stand apart.
\<close>

datatype number = Finite rat | PlusInfinity | MinusInfinity | NaN

text \<open>
  The settings that the functions below read, with the types they have in
  \<open>DEFAULT_CONFIG\<close>. The step budget is a number, and the command \<open>/autopilot steps\<close>
  and the configuration file can give it any value of that type.
\<close>

record config =
  api_key :: string
  auto_yes :: bool
  system_prompt :: string
  autopilot :: bool
  autopilot_steps :: number
  autopilot_done_tag :: string

text \<open>
  What one \<open>fetch\<close> of \<open>callApi\<close> meets: a transport failure, a status that is not
  ok with its body, a body that is no JSON, or the parsed JSON of the response.
\<close>

datatype api_event = NetworkFailure string | HttpStatus nat string | BadBody string | Body json

text \<open>
  \<open>callApi(messages, cfg)\<close> of index.js against the events still to come; \<open>None\<close>
  when the request never completes. The status error is thrown inside the \<open>try\<close> and
  rethrown as a network error.
\<close>

definition callApi :: "config \<Rightarrow> api_event list \<Rightarrow> (json completion \<times> api_event list) option" where
  "callApi cfg evs =
     (if api_key cfg = [] then Some (Threw ''API Key not set. Use /key or set OPENAI_API_KEY.'', evs)
      else (case evs of
              [] \<Rightarrow> None
            | NetworkFailure m # rest \<Rightarrow> Some (Threw (''Network error: '' @ m), rest)
            | HttpStatus code txt # rest \<Rightarrow>
                Some (Threw (''Network error: API '' @ show_nat code @ '': '' @ take 300 txt), rest)
            | BadBody m # rest \<Rightarrow> Some (Threw m, rest)
            | Body d # rest \<Rightarrow> Some (Returned d, rest)))"

text \<open>\<open>data.choices[0].message\<close>.\<close>

definition first_message :: "json \<Rightarrow> json option completion" where
  "first_message d =
     (case member_of (Some d) ''choices'' of
        Threw e \<Rightarrow> Threw e
      | Returned ch \<Rightarrow>
          (case ch of
             None \<Rightarrow> Threw ''Cannot read properties of undefined (reading '0')''
           | Some JNull \<Rightarrow> Threw ''Cannot read properties of null (reading '0')''
           | Some (JArr (c # cs)) \<Rightarrow> member_of (Some c) ''message''
           | Some (JObj kvs) \<Rightarrow> member_of (map_of kvs ''0'') ''message''
           | Some other \<Rightarrow> Threw ''Cannot read properties of undefined (reading 'message')''))"

text \<open>\<open>messages.filter(m => m.role !== "system")\<close>; a \<open>null\<close> element throws.\<close>

definition without_system :: "json list \<Rightarrow> json list completion" where
  "without_system ms =
     (if JNull \<in> set ms then Threw (null_access ''role'')
      else Returned (filter (\<lambda>m. field m ''role'' \<noteq> Some (JStr ''system'')) ms))"



section \<open>One turn of the conversation (index.js)\<close>

text \<open>
  The members that every object inherits from \<open>Object.prototype\<close>. A lookup
  \<open>o[k]\<close> with a computed key finds them when \<open>o\<close> has no member of its own by that
  name; the names that the program reads with a fixed key are not among them, which is
  why \<open>field\<close> looks at the own members only.
\<close>

definition object_prototype :: "string list" where
  "object_prototype =
     [''constructor'', ''__defineGetter__'', ''__defineSetter__'', ''hasOwnProperty'',
      ''__lookupGetter__'', ''__lookupSetter__'', ''isPrototypeOf'', ''propertyIsEnumerable'',
      ''toString'', ''valueOf'', ''__proto__'', ''toLocaleString'']"

text \<open>
  What such a lookup gives: data of the object itself, or an inherited member, which is a
  built-in function or, under \<open>__proto__\<close>, the prototype. An inherited member is
  truthy, and it cannot be iterated.
\<close>

datatype looked_up = Data json | Native

definition lookup :: "json \<Rightarrow> string \<Rightarrow> looked_up option" where
  "lookup obj k =
     (case field obj k of
        Some v \<Rightarrow> Some (Data v)
      | None \<Rightarrow> if k \<in> set object_prototype then Some Native else None)"

fun present :: "looked_up option \<Rightarrow> bool" where
  "present None = False"
| "present (Some Native) = True"
| "present (Some (Data v)) = truthy (Some v)"

text \<open>
  The variables of \<open>main\<close>, with the outside world and the events the remote model
  will answer with.
\<close>

record app =
  cfg :: config
  historyState :: json
  currentChat :: json
  history :: looked_up
  messages :: "json list"
  env :: world
  remote :: "api_event list"

text \<open>The key a value denotes when it indexes an object.\<close>

definition key_of :: "json \<Rightarrow> string" where
  "key_of v = template_text (Some v)"

definition digit_val :: "char \<Rightarrow> nat" where
  "digit_val c = of_char c - 48"

definition read_nat :: "string \<Rightarrow> nat" where
  "read_nat s = foldl (\<lambda>a c. 10 * a + digit_val c) 0 s"

text \<open>
  The own keys of an object are enumerated with the array indices first, in ascending
  order, and the other keys after them in the order of their creation. An array index is
  the canonical decimal text of a number below \<open>2^32 - 1\<close>.
\<close>

definition array_index :: "string \<Rightarrow> nat option" where
  "array_index k =
     (if k = show_nat (read_nat k) \<and> read_nat k < 4294967295 then Some (read_nat k) else None)"

fun insert_index :: "nat \<Rightarrow> string \<Rightarrow> json \<Rightarrow> (string \<times> json) list \<Rightarrow> (string \<times> json) list" where
  "insert_index i k v [] = [(k, v)]"
| "insert_index i k v ((k', v') # kvs) =
     (case array_index k' of
        None \<Rightarrow> (k, v) # (k', v') # kvs
      | Some j \<Rightarrow> if i < j then (k, v) # (k', v') # kvs else (k', v') # insert_index i k v kvs)"

text \<open>
  \<open>o[k] = v\<close> and \<open>delete o[k]\<close> on the members of an object. An assignment to
  \<open>__proto__\<close>, when the object has no member of its own by that name, goes to the
  setter that the object inherits: it replaces the prototype and adds no member.
\<close>

definition obj_put :: "(string \<times> json) list \<Rightarrow> string \<Rightarrow> json \<Rightarrow> (string \<times> json) list" where
  "obj_put kvs k v =
     (if k \<in> fst ` set kvs then map (\<lambda>(k', v'). if k' = k then (k', v) else (k', v')) kvs
      else if k = ''__proto__'' then kvs
      else (case array_index k of None \<Rightarrow> kvs @ [(k, v)] | Some i \<Rightarrow> insert_index i k v kvs))"

definition obj_delete :: "(string \<times> json) list \<Rightarrow> string \<Rightarrow> (string \<times> json) list" where
  "obj_delete kvs k = filter (\<lambda>(k', v'). k' \<noteq> k) kvs"

fun set_member :: "json \<Rightarrow> string \<Rightarrow> json \<Rightarrow> json" where
  "set_member (JObj kvs) k v = JObj (obj_put kvs k v)"
| "set_member other k v = other"

fun delete_member :: "json \<Rightarrow> string \<Rightarrow> json" where
  "delete_member (JObj kvs) k = JObj (obj_delete kvs k)"
| "delete_member other k = other"

fun object_keys :: "json \<Rightarrow> string list" where
  "object_keys (JObj kvs) = map fst kvs"
| "object_keys other = []"

text \<open>
  \<open>historyState.chats\<close>, and \<open>historyState.chats[name]\<close>. In every store that
  \<open>loadHistoryState\<close> returns \<open>chats\<close> is present. The model follows the program
  on a \<open>chats\<close> that is an object, the shape of every store file the program writes:
  on an array or a primitive value, which a store file written by hand may hold, the
  members are those of another kind of value (indices, a length, other prototypes), an
  assignment adds a property that is no element or raises a TypeError, and none of that
  is modelled: \<open>set_member\<close> and \<open>delete_member\<close> leave such a value as it is.
\<close>

definition chats :: "json \<Rightarrow> json" where
  "chats hs = (case field hs ''chats'' of Some c \<Rightarrow> c | None \<Rightarrow> JNull)"

definition chat :: "json \<Rightarrow> string \<Rightarrow> looked_up option" where
  "chat hs name = lookup (chats hs) name"

definition set_chat :: "json \<Rightarrow> string \<Rightarrow> json \<Rightarrow> json" where
  "set_chat hs name v = set_member hs ''chats'' (set_member (chats hs) name v)"

definition system_message :: "config \<Rightarrow> json" where
  "system_message c = JObj [(''role'', JStr ''system''), (''content'', JStr (system_prompt c))]"

definition user_message :: "string \<Rightarrow> json" where
  "user_message input = JObj [(''role'', JStr ''user''), (''content'', JStr input)]"

definition homedir_file :: "platform \<Rightarrow> string \<Rightarrow> string" where
  "homedir_file pf name = path_join pf ''~'' name"

definition HIST_FILE :: "platform \<Rightarrow> string" where
  "HIST_FILE pf = homedir_file pf ''.meowcli_history.json''"

text \<open>\<open>saveJson(file, data)\<close>: a failed write is logged and nothing else happens.\<close>

definition saveJson :: "platform \<Rightarrow> string \<Rightarrow> json \<Rightarrow> world \<Rightarrow> world" where
  "saveJson pf file data w =
     (case writeFileSync (disk w) file (Some (JStr (stringify pf data))) of
        Inl e \<Rightarrow> w
      | Inr d \<Rightarrow> w\<lparr>disk := d\<rparr>)"

definition saveHistoryState :: "platform \<Rightarrow> json \<Rightarrow> world \<Rightarrow> world" where
  "saveHistoryState pf st w = saveJson pf (HIST_FILE pf) st w"

text \<open>
  \<open>msg.content || ""\<close> once \<open>renderMD(msg.content || "").trim()\<close> has been evaluated
  for the screen. The markdown library takes strings and raises an exception on anything
  else, \<open>renderMD\<close> then hands its argument back, and only a string has \<open>trim\<close>: a
  content that is neither falsy nor a string ends in a TypeError.
\<close>

definition reply_text :: "json option \<Rightarrow> string completion" where
  "reply_text msg =
     (case member_of msg ''content'' of
        Threw e \<Rightarrow> Threw e
      | Returned c \<Rightarrow>
          if \<not> truthy c then Returned []
          else (case c of
                  Some (JStr t) \<Rightarrow> Returned t
                | _ \<Rightarrow> Threw ''renderMD(...).trim is not a function''))"

text \<open>
  The inner \<open>while (true)\<close> of the turn: call the model, run its tool calls, and go
  round again until an answer comes without tool calls; then append the answer and save
  the session. \<open>None\<close>: a request never completed. \<open>Threw\<close>: the exception that the
  \<open>catch\<close> of the turn receives, with the state as it is at that moment.
\<close>

function chat_loop :: "platform \<Rightarrow> app \<Rightarrow> (unit completion \<times> app) option" where
  "chat_loop pf st =
     (case callApi (cfg st) (remote st) of
        None \<Rightarrow> None
      | Some (Threw e, rest) \<Rightarrow> Some (Threw e, st\<lparr>remote := rest\<rparr>)
      | Some (Returned d, rest) \<Rightarrow>
          (case first_message d of
             Threw e \<Rightarrow> Some (Threw e, st\<lparr>remote := rest\<rparr>)
           | Returned msg \<Rightarrow>
               (case handleTools pf (auto_yes (cfg st)) msg (messages st) (env st) of
                  (Threw e, ms, w) \<Rightarrow> Some (Threw e, st\<lparr>remote := rest, messages := ms, env := w\<rparr>)
                | (Returned True, ms, w) \<Rightarrow>
                    chat_loop pf (st\<lparr>remote := rest, messages := ms, env := w\<rparr>)
                | (Returned False, ms, w) \<Rightarrow>
                    (case reply_text msg of
                       Threw e \<Rightarrow> Some (Threw e, st\<lparr>remote := rest, messages := ms, env := w\<rparr>)
                     | Returned u \<Rightarrow>
                         (let ms' = ms @ [the msg] in
                          case without_system ms' of
                            Threw e \<Rightarrow>
                              Some (Threw e, st\<lparr>remote := rest, messages := ms', env := w\<rparr>)
                          | Returned h \<Rightarrow>
                              (let hs = set_member
                                          (set_chat (historyState st) (key_of (currentChat st)) (JArr h))
                                          ''current'' (currentChat st)
                               in Some (Returned (),
                                        st\<lparr>remote := rest, messages := ms', history := Data (JArr h),
                                           historyState := hs,
                                           env := saveHistoryState pf hs w\<rparr>)))))))"
  by pat_completeness auto
termination
proof (relation "measure (\<lambda>(pf, st). length (remote st))", goal_cases)
  case 1
  show ?case by simp
next
  case (2 pf st x2 x1 rest d msg x y b ms w)
  then show ?case
    by (auto simp: callApi_def split: if_splits list.splits api_event.splits)
qed

declare chat_loop.simps [simp del]

text \<open>
  A turn: the user message is pushed, the loop runs, and on an exception
  \<open>messages.pop()\<close> removes the last element of the conversation.
\<close>

definition ai_message :: "platform \<Rightarrow> string \<Rightarrow> app \<Rightarrow> app option" where
  "ai_message pf input st =
     (case chat_loop pf (st\<lparr>messages := messages st @ [user_message input]\<rparr>) of
        None \<Rightarrow> None
      | Some (Returned u, st') \<Rightarrow> Some st'
      | Some (Threw e, st') \<Rightarrow> Some (st'\<lparr>messages := butlast (messages st')\<rparr>))"


section \<open>The autopilot variant\<close>











text \<open>How a run of the autopilot ended.\<close>

datatype halt = Done | HaltedManual | HaltedLimit





section \<open>The session store (index.js)\<close>

text \<open>\<open>loadJson(file, fallback)\<close>.\<close>

definition loadJson :: "platform \<Rightarrow> fs \<Rightarrow> string \<Rightarrow> json \<Rightarrow> json" where
  "loadJson pf d file fallback =
     (if existsSync d file then
        (case readFileSync d file of
           Inl e \<Rightarrow> fallback
         | Inr t \<Rightarrow> (case json_parse pf t of None \<Rightarrow> fallback | Some v \<Rightarrow> v))
      else fallback)"

fun is_array :: "json \<Rightarrow> bool" where
  "is_array (JArr xs) = True"
| "is_array other = False"

text \<open>\<open>v && typeof v === "object"\<close>.\<close>

fun is_object :: "json option \<Rightarrow> bool" where
  "is_object (Some (JObj kvs)) = True"
| "is_object (Some (JArr xs)) = True"
| "is_object other = False"

definition or_default :: "json option \<Rightarrow> json" where
  "or_default v = (if truthy v then the v else JStr ''default'')"

definition fresh_store :: json where
  "fresh_store = JObj [(''current'', JStr ''default''), (''chats'', JObj [(''default'', JArr [])])]"

text \<open>\<open>loadHistoryState()\<close>.\<close>

definition loadHistoryState :: "platform \<Rightarrow> fs \<Rightarrow> json" where
  "loadHistoryState pf d =
     (let data = loadJson pf d (HIST_FILE pf) fresh_store in
      if is_array data then
        JObj [(''current'', JStr ''default''), (''chats'', JObj [(''default'', data)])]
      else if is_object (Some data) then
        (let cs = (if is_object (field data ''chats'') then the (field data ''chats'') else JObj []);
             cur = or_default (field data ''current'');
             cs' = (if \<not> present (lookup cs (key_of cur)) then set_member cs (key_of cur) (JArr [])
                    else cs)
         in JObj [(''current'', cur), (''chats'', cs')])
      else fresh_store)"

text \<open>
  The spread \<open>...history\<close> into the conversation: the elements of an array, the
  characters of a string, and a TypeError on what cannot be iterated.
\<close>

definition spread :: "looked_up option \<Rightarrow> json list completion" where
  "spread v =
     (case v of
        Some (Data (JArr xs)) \<Rightarrow> Returned xs
      | Some (Data (JStr s)) \<Rightarrow> Returned (map (\<lambda>c. JStr [c]) s)
      | _ \<Rightarrow> Threw ''history is not iterable'')"

text \<open>
  The start of \<open>main\<close>, up to the first prompt. An exception here, as in the command
  handlers below where they have no \<open>try\<close>, ends the program.
\<close>

definition main_init :: "platform \<Rightarrow> config \<Rightarrow> world \<Rightarrow> api_event list \<Rightarrow> app completion" where
  "main_init pf c w evs =
     (let hs0 = loadHistoryState pf (disk w);
          cur = field hs0 ''current'';
          hs = (if \<not> present (chat hs0 (template_text cur))
                then set_chat hs0 (template_text cur) (JArr []) else hs0);
          h = chat hs (template_text cur)
      in case spread h of
           Threw e \<Rightarrow> Threw e
         | Returned xs \<Rightarrow>
             Returned \<lparr>cfg = c, historyState = hs, currentChat = the cur, history = the h,
                       messages = system_message c # xs, env = w, remote = evs\<rparr>)"

text \<open>\<open>/clear\<close>.\<close>

definition clear_cmd :: "platform \<Rightarrow> app \<Rightarrow> app" where
  "clear_cmd pf st =
     (let hs = set_chat (historyState st) (key_of (currentChat st)) (JArr [])
      in st\<lparr>messages := [system_message (cfg st)], history := Data (JArr []), historyState := hs,
            env := saveHistoryState pf hs (env st)\<rparr>)"

text \<open>
  \<open>/chat new\<close> once the name is settled (\<open>name || makeChatName(historyState)\<close>);
  a name in use changes nothing.
\<close>

definition chat_new :: "platform \<Rightarrow> string \<Rightarrow> app \<Rightarrow> app" where
  "chat_new pf newName st =
     (if present (chat (historyState st) newName) then st
      else (let hs = set_member (set_chat (historyState st) newName (JArr []))
                       ''current'' (JStr newName)
            in st\<lparr>historyState := hs, currentChat := JStr newName, history := Data (JArr []),
                  messages := [system_message (cfg st)],
                  env := saveHistoryState pf hs (env st)\<rparr>))"

text \<open>\<open>/chat use name\<close>.\<close>

definition chat_use :: "platform \<Rightarrow> string \<Rightarrow> app \<Rightarrow> app completion" where
  "chat_use pf name st =
     (if name = [] then Returned st
      else if \<not> present (chat (historyState st) name) then Returned st
      else (let hs = set_member (historyState st) ''current'' (JStr name);
                h = chat hs name
            in case spread h of
                 Threw e \<Rightarrow> Threw e
               | Returned xs \<Rightarrow>
                   Returned (st\<lparr>historyState := hs, currentChat := JStr name, history := the h,
                               messages := system_message (cfg st) # xs,
                               env := saveHistoryState pf hs (env st)\<rparr>)))"

text \<open>\<open>names[0] || "default"\<close>, for \<open>names = Object.keys(historyState.chats)\<close>.\<close>

definition next_chat :: "json \<Rightarrow> string" where
  "next_chat hs =
     (case object_keys (chats hs) of
        [] \<Rightarrow> ''default''
      | n # ns \<Rightarrow> if n = [] then ''default'' else n)"

text \<open>\<open>/chat delete name\<close>.\<close>

definition chat_delete :: "platform \<Rightarrow> string \<Rightarrow> app \<Rightarrow> app completion" where
  "chat_delete pf name st =
     (if name = [] then Returned st
      else if \<not> present (chat (historyState st) name) then Returned st
      else (let hs1 = set_member (historyState st) ''chats''
                        (delete_member (chats (historyState st)) name)
            in if field hs1 ''current'' = Some (JStr name) then
                 (let nxt = next_chat hs1;
                      hs2 = (if \<not> present (chat hs1 nxt) then set_chat hs1 nxt (JArr []) else hs1);
                      hs3 = set_member hs2 ''current'' (JStr nxt);
                      h = chat hs3 nxt
                  in case spread h of
                       Threw e \<Rightarrow> Threw e
                     | Returned xs \<Rightarrow>
                         Returned (st\<lparr>historyState := hs3, currentChat := JStr nxt,
                                     history := the h,
                                     messages := system_message (cfg st) # xs,
                                     env := saveHistoryState pf hs3 (env st)\<rparr>))
               else Returned (st\<lparr>historyState := hs1,
                                env := saveHistoryState pf hs1 (env st)\<rparr>)))"

text \<open>
  The terms of the rule for \<open>/chat delete\<close>. The name that becomes current is the
  first of the remaining names in the order in which the object enumerates them, and
  \<open>default\<close> when there is none or when that first name is the empty string. Under
  that name the sessions get an empty session when they have none there, or a value
  that is falsy. A session can be loaded when it can be iterated: an array, or a string.
\<close>

definition successor :: "(string \<times> json) list \<Rightarrow> string" where
  "successor rest =
     (case map fst rest of [] \<Rightarrow> ''default'' | k # ks \<Rightarrow> if k = [] then ''default'' else k)"

definition with_session :: "(string \<times> json) list \<Rightarrow> string \<Rightarrow> (string \<times> json) list" where
  "with_session rest n = (if truthy (map_of rest n) then rest else obj_put rest n (JArr []))"

fun iterable :: "json \<Rightarrow> bool" where
  "iterable (JArr xs) = True"
| "iterable (JStr s) = True"
| "iterable other = False"

text \<open>\<open>/export file\<close>, \<open>file\<close> being the trimmed rest of the line.\<close>

definition export_cmd :: "platform \<Rightarrow> string \<Rightarrow> app \<Rightarrow> app" where
  "export_cmd pf file st =
     (if file = [] then st
      else (case writeFileSync (disk (env st)) file (Some (JStr (stringify pf (historyState st)))) of
              Inl e \<Rightarrow> st
            | Inr d \<Rightarrow> st\<lparr>env := (env st)\<lparr>disk := d\<rparr>\<rparr>))"

text \<open>
  \<open>/import file\<close>. The whole handler is one \<open>try\<close>: an exception is reported and
  the assignments made before it stay.
\<close>

definition import_cmd :: "platform \<Rightarrow> string \<Rightarrow> app \<Rightarrow> app" where
  "import_cmd pf file st =
     (if file = [] then st
      else (case readFileSync (disk (env st)) file of
              Inl e \<Rightarrow> st
            | Inr t \<Rightarrow>
                (case json_parse pf t of
                   None \<Rightarrow> st
                 | Some data \<Rightarrow>
                     if data = JNull then st
                     else if \<not> truthy (field data ''chats'') then st
                     else (let cur = or_default (field data ''current'');
                               h = (if present (chat data (key_of cur)) then the (chat data (key_of cur))
                                    else Data (JArr []));
                               st1 = st\<lparr>historyState := data, currentChat := cur, history := h\<rparr>
                           in case spread (Some h) of
                                Threw e \<Rightarrow> st1
                              | Returned xs \<Rightarrow>
                                  st1\<lparr>messages := system_message (cfg st) # xs,
                                      env := saveHistoryState pf data (env st)\<rparr>))))"

text \<open>
  The property of the store under discussion: \<open>current\<close> names an entry that
  \<open>chats\<close> has.
\<close>

definition current_resolves :: "json \<Rightarrow> bool" where
  "current_resolves hs =
     (case field hs ''current'' of
        Some v \<Rightarrow> key_of v \<in> set (object_keys (chats hs))
      | None \<Rightarrow> False)"

section \<open>A small platform for concrete runs\<close>

text \<open>
  Stand-ins for the functions of Node, used where a property is evaluated on a concrete
  input: paths resolve to themselves, directories are empty, the shell prints \<open>ok\<close>,
  the network is down, and JSON is printed compactly.
\<close>

definition sample_resolve :: resolver where
  "sample_resolve p =
     (case p of Some (JStr s) \<Rightarrow> Inr s | _ \<Rightarrow> Inl ''The path argument must be of type string'')"

text \<open>
  For two equal texts the \<open>diff\<close> package emits the header of the patch and no hunk:
  the \<open>Index\<close> line, a rule of 67 equals signs, and the two file lines with their
  labels. The stand-in gives a one-hunk patch for texts that differ.
\<close>

definition patch_header :: "string \<Rightarrow> string" where
  "patch_header file =
     ''Index: '' @ file @ ''\<newline>'' @ replicate 67 (CHR ''='') @ ''\<newline>'' @
     ''--- '' @ file @ [CHR 0x09] @ ''Old\<newline>'' @
     ''+++ '' @ file @ [CHR 0x09] @ ''New\<newline>''"

definition sample_patch :: "string \<Rightarrow> string \<Rightarrow> json option \<Rightarrow> string + string" where
  "sample_patch file old content =
     (case content of
        Some (JStr new) \<Rightarrow>
          Inr (patch_header file @
               (if old = new then []
                else ''@@ -1 +1 @@\<newline>-'' @ old @ ''\<newline>+'' @ new @ ''\<newline>''))
      | _ \<Rightarrow> Inl ''newStr.split is not a function'')"

definition sample_exec :: "json option \<Rightarrow> fs \<Rightarrow> string + ((string \<times> string \<times> string option) \<times> fs)" where
  "sample_exec c d =
     (case c of
        Some (JStr s) \<Rightarrow> Inr ((''ok'', [], None), d)
      | _ \<Rightarrow> Inl ''The command argument must be of type string'')"

fun render :: "json \<Rightarrow> string" where
  "render JNull = ''null''"
| "render (JBool b) = (if b then ''true'' else ''false'')"
| "render (JNum n) = show_int n"
| "render (JStr s) = [CHR 0x22] @ s @ [CHR 0x22]"
| "render (JArr xs) = ''['' @ intercalate '','' (map render xs) @ '']''"
| "render (JObj kvs) =
     ''{'' @ intercalate '','' (map (\<lambda>kv. [CHR 0x22] @ fst kv @ [CHR 0x22] @ '':'' @ render (snd kv)) kvs)
     @ ''}''"

text \<open>A store with two sessions, and a parser that knows the texts the runs below read.\<close>

definition sample_store :: json where
  "sample_store =
     JObj [(''current'', JStr ''work''),
           (''chats'', JObj [(''default'', JArr []),
                             (''work'', JArr [JObj [(''role'', JStr ''user''), (''content'', JStr ''hi'')]])])]"

definition dangling_store :: json where
  "dangling_store = JObj [(''current'', JStr ''x''), (''chats'', JObj [(''a'', JArr [])])]"

definition sample_parse :: "string \<Rightarrow> json option" where
  "sample_parse t =
     (if t = ''{}'' then Some (JObj [])
      else if t = render sample_store then Some sample_store
      else if t = render dangling_store then Some dangling_store
      else None)"

definition sample_platform :: platform where
  "sample_platform =
     \<lparr>resolve = sample_resolve,
      path_join = (\<lambda>d n. d @ ''/'' @ n),
      readdirSync = (\<lambda>d dir. Inr []),
      createTwoFilesPatch = sample_patch,
      mkdirp = (\<lambda>d file. Inr d),
      exec = sample_exec,
      fetch_http = (\<lambda>a. Inl (''TypeError'', ''fetch failed'')),
      fetch_search = (\<lambda>q m. Inl ''fetch failed''),
      stringify = render,
      json_parse = sample_parse\<rparr>"

definition empty_world :: world where
  "empty_world = \<lparr>disk = Map.empty, decisions = [], gate = []\<rparr>"

definition tmp_world :: world where
  "tmp_world = \<lparr>disk = [''/tmp'' \<mapsto> Directory, ''/a'' \<mapsto> RegFile ''hello''], decisions = [], gate = []\<rparr>"


definition one_file_world :: "string \<Rightarrow> string \<Rightarrow> world" where
  "one_file_world file txt = \<lparr>disk = [file \<mapsto> RegFile txt], decisions = [], gate = []\<rparr>"

text \<open>Messages of the remote model, and a turn that fails after a tool round.\<close>

definition tool_call :: "string \<Rightarrow> string \<Rightarrow> string \<Rightarrow> json" where
  "tool_call cid name arguments =
     JObj [(''id'', JStr cid), (''type'', JStr ''function''),
           (''function'', JObj [(''name'', JStr name), (''arguments'', JStr arguments)])]"

definition assistant_calls :: "json list \<Rightarrow> json" where
  "assistant_calls calls =
     JObj [(''role'', JStr ''assistant''), (''content'', JNull), (''tool_calls'', JArr calls)]"


definition sample_config :: config where
  "sample_config =
     \<lparr>api_key = ''sk-test'', auto_yes = False, system_prompt = ''You are a helpful engineer.'',
      autopilot = False, autopilot_steps = Finite 5, autopilot_done_tag = ''[DONE]''\<rparr>"

definition response :: "json \<Rightarrow> json" where
  "response msg = JObj [(''choices'', JArr [JObj [(''index'', JNum 0), (''message'', msg)]])]"

definition failing_app :: app where
  "failing_app =
     \<lparr>cfg = sample_config, historyState = fresh_store, currentChat = JStr ''default'',
      history = Data (JArr []), messages = [system_message sample_config], env = tmp_world,
      remote = [Body (response (assistant_calls [tool_call ''c1'' ''list_dir'' ''{}''])),
                NetworkFailure ''socket hang up'']\<rparr>"

section \<open>Rounds of an autopilot run\<close>













text \<open>States of the session store used in concrete runs.\<close>

definition backup_world :: world where
  "backup_world =
     \<lparr>disk = [''backup.json'' \<mapsto> RegFile (render dangling_store)], decisions = [], gate = []\<rparr>"

definition fresh_app :: "world \<Rightarrow> app" where
  "fresh_app w =
     \<lparr>cfg = sample_config, historyState = fresh_store, currentChat = JStr ''default'',
      history = Data (JArr []), messages = [system_message sample_config], env = w, remote = []\<rparr>"

text \<open>The decimal digits.\<close>

definition is_digit :: "char \<Rightarrow> bool" where
  "is_digit c = (48 \<le> (of_char c :: nat) \<and> (of_char c :: nat) < 58)"

definition three_chats :: app where
  "three_chats = chat_new sample_platform ''a'' (chat_new sample_platform ''b'' (fresh_app empty_world))"

text \<open>The store a command leaves; \<open>null\<close> when the command ended the program.\<close>

definition store_after :: "app completion \<Rightarrow> json" where
  "store_after r = (case r of Returned st \<Rightarrow> historyState st | Threw e \<Rightarrow> JNull)"

definition exporting_app :: app where
  "exporting_app = (fresh_app empty_world)\<lparr>historyState := sample_store, currentChat := JStr ''work''\<rparr>"

text \<open>
  A store with a session whose name is the empty string, and one whose \<open>current\<close>
  names no session.
\<close>

definition unnamed_chat :: app where
  "unnamed_chat =
     (fresh_app empty_world)
       \<lparr>historyState :=
          JObj [(''current'', JStr ''x''),
                (''chats'', JObj [(''x'', JArr []), ([], JArr []), (''b'', JArr [])])],
        currentChat := JStr ''x''\<rparr>"

definition dangling_app :: app where
  "dangling_app = (fresh_app empty_world)\<lparr>historyState := dangling_store, currentChat := JStr ''x''\<rparr>"

section \<open>Properties of \<open>readFile\<close>\<close>

lemma digit_val_digit_char: "d < 10 \<Longrightarrow> digit_val (digit_char d) = d"
  by (simp add: digit_val_def digit_char_def)

lemma read_show_nat: "read_nat (show_nat n) = n"
proof (induction n rule: show_nat.induct)
  case (1 n)
  show ?case
  proof (cases "n < 10")
    case True
    then show ?thesis by (simp add: show_nat.simps [of n] read_nat_def digit_val_digit_char)
  next
    case False
    with 1 have "read_nat (show_nat (n div 10)) = n div 10" by simp
    with False show ?thesis
      by (simp add: show_nat.simps [of n] read_nat_def digit_val_digit_char)
  qed
qed

text \<open>
  Claim C10. \<open>readFile\<close> always returns a string. For a regular file it is the content
  itself when that has at most 50000 characters, and otherwise the first 50000
  characters followed by the truncation marker, which carries the decimal numeral of the
  original length. A path that does not resolve, a file that cannot be read and a path
  that is no regular file each give a diagnostic string.
\<close>

theorem readFile_total_bounded:
  "(rslv p = Inr file \<and> d file = Some (RegFile txt) \<longrightarrow>
      readFile rslv d p =
        (if length txt \<le> 50000 then txt
         else take 50000 txt @ truncation_marker (length txt))
      \<and> length (readFile rslv d p) \<le> 50000 + length (truncation_marker (length txt)))
   \<and> truncation_marker n = ''\<newline>...[TRUNCATED: '' @ show_nat n @ '' bytes]...''
   \<and> read_nat (show_nat n) = n
   \<and> (rslv p = Inl e \<longrightarrow> readFile rslv d p = cross_mark @ '' Read error: '' @ e)
   \<and> (rslv p = Inr file \<and> d file = Some (Unreadable e) \<longrightarrow>
        readFile rslv d p = cross_mark @ '' Read error: '' @ e)
   \<and> (rslv p = Inr file \<and> (d file = None \<or> d file = Some Directory) \<longrightarrow>
        readFile rslv d p = cross_mark @ '' File not found: '' @ file)"
  by (auto simp: readFile_def existsSync_def isFile_def readFileSync_def truncation_marker_def
      read_show_nat)

theorem readFile_total_bounded_witness:
  "readFile sample_resolve [''/a'' \<mapsto> RegFile ''hello''] (Some (JStr ''/a'')) = ''hello''
   \<and> readFile sample_resolve [''/a'' \<mapsto> Unreadable ''EACCES''] (Some (JStr ''/a''))
        = cross_mark @ '' Read error: EACCES''
   \<and> readFile sample_resolve [''/a'' \<mapsto> Directory] (Some (JStr ''/a''))
        = cross_mark @ '' File not found: /a''"
proof -
  have a: "sample_resolve (Some (JStr ''/a'')) = Inr ''/a''" by (simp add: sample_resolve_def)
  have 1: "readFile sample_resolve [''/a'' \<mapsto> RegFile ''hello''] (Some (JStr ''/a'')) = ''hello''"
    using readFile_total_bounded [of sample_resolve "Some (JStr ''/a'')" "''/a''"
        "[''/a'' \<mapsto> RegFile ''hello'']" "''hello''" 0 "[]"] a by simp
  have 2: "readFile sample_resolve [''/a'' \<mapsto> Unreadable ''EACCES''] (Some (JStr ''/a''))
        = cross_mark @ '' Read error: EACCES''"
    using readFile_total_bounded [of sample_resolve "Some (JStr ''/a'')" "''/a''"
        "[''/a'' \<mapsto> Unreadable ''EACCES'']" "[]" 0 "''EACCES''"] a by simp
  have 3: "readFile sample_resolve [''/a'' \<mapsto> Directory] (Some (JStr ''/a''))
        = cross_mark @ '' File not found: /a''"
    using readFile_total_bounded [of sample_resolve "Some (JStr ''/a'')" "''/a''"
        "[''/a'' \<mapsto> Directory]" "[]" 0 "[]"] a by simp
  from 1 2 3 show ?thesis by simp
qed

section \<open>Properties of the dispatch\<close>

lemma clean_name_proxy: "clean_name (''proxy_'' @ t) = t"
  by (simp add: clean_name_def)

lemma clean_name_registered: "t \<in> set tool_names \<Longrightarrow> clean_name t = t"
  by (auto simp: tool_names_def clean_name_def)

lemma executeTool_string:
  "s \<noteq> [] \<Longrightarrow> executeTool pf a (Some (JStr s)) args w = dispatch pf a (clean_name s) s args w"
  unfolding executeTool.simps [of pf a "Some (JStr s)"] dispatch_def
  by simp

lemma dispatch_registered:
  "c \<in> set tool_names \<Longrightarrow> dispatch pf a c shown args w = dispatch pf a c shown' args w"
  by (auto simp: tool_names_def dispatch_def)

lemma dispatch_unknown:
  "c \<notin> set tool_names \<Longrightarrow>
     dispatch pf a c shown args w = (Returned (cross_mark @ '' Unknown tool: '' @ shown), w)"
  by (simp add: tool_names_def dispatch_def)

lemma executeTool_proxy:
  "executeTool pf a (Some (JStr (''proxy_'' @ t))) args w = dispatch pf a t (''proxy_'' @ t) args w"
proof -
  have "''proxy_'' @ t \<noteq> []" by simp
  from executeTool_string [OF this, of pf a args w] show ?thesis
    unfolding clean_name_proxy .
qed

text \<open>
  Claim C9, as amended. One leading \<open>proxy_\<close> is removed from the name: for each of
  the seven registered tool names \<open>t\<close>, the name \<open>proxy_t\<close> is dispatched exactly
  as \<open>t\<close> is; a prefixed name whose rest is not registered gets the unknown-tool result,
  which quotes the name with its prefix.
\<close>

theorem executeTool_proxy_prefix:
  "(t \<in> set tool_names \<longrightarrow>
      executeTool pf a (Some (JStr (''proxy_'' @ t))) args w
        = executeTool pf a (Some (JStr t)) args w)
   \<and> (t \<notin> set tool_names \<longrightarrow>
      executeTool pf a (Some (JStr (''proxy_'' @ t))) args w
        = (Returned (cross_mark @ '' Unknown tool: proxy_'' @ t), w))"
proof (intro conjI impI)
  assume t: "t \<in> set tool_names"
  then have ne: "t \<noteq> []" by (auto simp: tool_names_def)
  have "executeTool pf a (Some (JStr (''proxy_'' @ t))) args w
          = dispatch pf a t (''proxy_'' @ t) args w"
    by (rule executeTool_proxy)
  also have "\<dots> = dispatch pf a t t args w" by (rule dispatch_registered [OF t])
  also have "\<dots> = executeTool pf a (Some (JStr t)) args w"
    using executeTool_string [OF ne, of pf a args w] by (simp add: clean_name_registered [OF t])
  finally show "executeTool pf a (Some (JStr (''proxy_'' @ t))) args w
        = executeTool pf a (Some (JStr t)) args w" .
next
  assume t: "t \<notin> set tool_names"
  have "executeTool pf a (Some (JStr (''proxy_'' @ t))) args w
          = dispatch pf a t (''proxy_'' @ t) args w"
    by (rule executeTool_proxy)
  then show "executeTool pf a (Some (JStr (''proxy_'' @ t))) args w
        = (Returned (cross_mark @ '' Unknown tool: proxy_'' @ t), w)"
    by (simp add: dispatch_unknown [OF t])
qed

lemma sample_read_file:
  "dispatch sample_platform False ''read_file'' shown (JObj [(''path'', JStr ''/a'')]) tmp_world
     = (Returned ''hello'', tmp_world)"
  by (simp add: dispatch_def readFile_def sample_platform_def sample_resolve_def existsSync_def
      isFile_def readFileSync_def tmp_world_def)

lemma sample_list_dir:
  "dispatch sample_platform False ''list_dir'' shown (JObj [(''path'', JStr ''/tmp'')]) tmp_world
     = (Returned [], tmp_world)"
  by (simp add: dispatch_def listDir_def sample_platform_def sample_resolve_def existsSync_def
      isDirectory_def tmp_world_def)

theorem executeTool_proxy_prefix_witness:
  "executeTool sample_platform False (Some (JStr ''proxy_read_file'')) (JObj [(''path'', JStr ''/a'')])
       tmp_world
     = (Returned ''hello'', tmp_world)
   \<and> executeTool sample_platform False (Some (JStr ''proxy_foo'')) (JObj []) tmp_world
     = (Returned (cross_mark @ '' Unknown tool: proxy_foo''), tmp_world)"
proof -
  have r: "''read_file'' \<in> set tool_names" by (simp add: tool_names_def)
  have f: "''foo'' \<notin> set tool_names" by (simp add: tool_names_def)
  have "executeTool sample_platform False (Some (JStr ''read_file'')) (JObj [(''path'', JStr ''/a'')])
       tmp_world = (Returned ''hello'', tmp_world)"
    by (simp add: executeTool_string clean_name_def sample_read_file)
  then show ?thesis
    using executeTool_proxy_prefix [of "''read_file''" sample_platform False
        "JObj [(''path'', JStr ''/a'')]" tmp_world]
      executeTool_proxy_prefix [of "''foo''" sample_platform False "JObj []" tmp_world] r f
    by simp
qed

text \<open>
  A name with the prefix twice starts with \<open>proxy_\<close>, yet it is not dispatched as the
  name without that prefix: it falls to the unknown-tool result.
\<close>

theorem executeTool_proxy_counterexample:
  "executeTool sample_platform False (Some (JStr ''proxy_proxy_list_dir''))
       (JObj [(''path'', JStr ''/tmp'')]) tmp_world
     = (Returned (cross_mark @ '' Unknown tool: proxy_proxy_list_dir''), tmp_world)
   \<and> executeTool sample_platform False (Some (JStr ''proxy_list_dir''))
       (JObj [(''path'', JStr ''/tmp'')]) tmp_world
     = (Returned [], tmp_world)
   \<and> executeTool sample_platform False (Some (JStr ''proxy_proxy_list_dir''))
       (JObj [(''path'', JStr ''/tmp'')]) tmp_world
     \<noteq> executeTool sample_platform False (Some (JStr ''proxy_list_dir''))
       (JObj [(''path'', JStr ''/tmp'')]) tmp_world"
proof -
  have 1: "executeTool sample_platform False (Some (JStr ''proxy_proxy_list_dir''))
       (JObj [(''path'', JStr ''/tmp'')]) tmp_world
     = (Returned (cross_mark @ '' Unknown tool: proxy_proxy_list_dir''), tmp_world)"
    by (simp add: executeTool_string clean_name_def dispatch_unknown tool_names_def)
  have 2: "executeTool sample_platform False (Some (JStr ''proxy_list_dir''))
       (JObj [(''path'', JStr ''/tmp'')]) tmp_world = (Returned [], tmp_world)"
    by (simp add: executeTool_string clean_name_def sample_list_dir)
  show ?thesis unfolding 1 2 by (simp add: cross_mark_def)
qed

section \<open>Properties of tool chains\<close>













section \<open>Properties of \<open>writeFile\<close>\<close>

lemma confirm_gate:
  "gate (snd (confirm action detail a w)) = gate w @ [(action, detail, a)]"
  by (simp add: confirm_def Let_def split: list.splits decision.splits)

lemma confirm_disk: "disk (snd (confirm action detail a w)) = disk w"
  by (simp add: confirm_def Let_def split: list.splits decision.splits)

lemma write_commit_gate: "gate (snd (write_commit pf file content w)) = gate w"
  by (simp add: write_commit_def split: sum.splits)

lemma write_gate_gate:
  "gate (snd (write_gate file diff a w)) =
     (if js_trim diff \<noteq> [] \<and> 100 < length diff
      then gate w @ [(''Write file: '' @ file, Some (JStr (take 3000 diff)), a)]
      else if \<not> existsSync (disk w) file
      then gate w @ [(''Create new file'', Some (JStr file), a)]
      else gate w)"
proof -
  have c: "\<And>action detail. gate (snd (confirm action detail a w)) = gate w @ [(action, detail, a)]"
    by (rule confirm_gate)
  show ?thesis
    unfolding write_gate_def
    using c [of "''Write file: '' @ file" "Some (JStr (take 3000 diff))"]
      c [of "''Create new file''" "Some (JStr file)"]
    by (auto split: prod.splits completion.splits)
qed

lemma writeFile_gate_general:
  assumes "resolve pf p = Inr file"
    and "(if existsSync (disk w) file then readFileSync (disk w) file else Inr []) = Inr old"
    and "createTwoFilesPatch pf file old content = Inr diff"
  shows "gate (snd (writeFile pf p content a w)) = gate (snd (write_gate file diff a w))"
proof (cases "write_gate file diff a w")
  case (Pair r w')
  then show ?thesis
    using assms by (cases r) (simp_all add: writeFile_def write_commit_gate)
qed

text \<open>
  What the guard of \<open>writeFile\<close> does. Whether \<open>confirm\<close> is called is decided by the
  text of the patch alone, not by a comparison of the contents. For an existing file there
  is no call exactly when the patch is blank or at most 100 characters long, and one call,
  showing the patch, otherwise. For a file that does not exist there is always one call:
  the one showing the patch when it is over the threshold, and the one for a new file
  otherwise.
\<close>

lemma writeFile_gate:
  assumes "resolve pf p = Inr file" and "createTwoFilesPatch pf file old content = Inr diff"
  shows "(disk w file = Some (RegFile old) \<longrightarrow>
            gate (snd (writeFile pf p content a w)) =
              (if js_trim diff \<noteq> [] \<and> 100 < length diff
               then gate w @ [(''Write file: '' @ file, Some (JStr (take 3000 diff)), a)]
               else gate w))
       \<and> (disk w file = None \<and> old = [] \<longrightarrow>
            gate (snd (writeFile pf p content a w)) =
              gate w @ [if js_trim diff \<noteq> [] \<and> 100 < length diff
                        then (''Write file: '' @ file, Some (JStr (take 3000 diff)), a)
                        else (''Create new file'', Some (JStr file), a)])"
proof (intro conjI impI)
  assume d: "disk w file = Some (RegFile old)"
  then have "(if existsSync (disk w) file then readFileSync (disk w) file else Inr []) = Inr old"
    by (simp add: existsSync_def readFileSync_def)
  from writeFile_gate_general [OF assms(1) this assms(2)] d
  show "gate (snd (writeFile pf p content a w)) =
              (if js_trim diff \<noteq> [] \<and> 100 < length diff
               then gate w @ [(''Write file: '' @ file, Some (JStr (take 3000 diff)), a)]
               else gate w)"
    by (simp add: write_gate_gate existsSync_def)
next
  assume d: "disk w file = None \<and> old = []"
  then have "(if existsSync (disk w) file then readFileSync (disk w) file else Inr []) = Inr old"
    by (simp add: existsSync_def)
  from writeFile_gate_general [OF assms(1) this assms(2)] d
  show "gate (snd (writeFile pf p content a w)) =
              gate w @ [if js_trim diff \<noteq> [] \<and> 100 < length diff
                        then (''Write file: '' @ file, Some (JStr (take 3000 diff)), a)
                        else (''Create new file'', Some (JStr file), a)]"
    by (simp add: write_gate_gate existsSync_def)
qed

lemma js_trim_nonempty: "c \<in> set s \<Longrightarrow> \<not> is_space c \<Longrightarrow> js_trim s \<noteq> []"
proof -
  assume c: "c \<in> set s" and n: "\<not> is_space c"
  then have "dropWhile is_space s \<noteq> []" by auto
  moreover have "c \<in> set (dropWhile is_space s)"
    using c n by (induction s) auto
  ultimately have "dropWhile is_space (rev (dropWhile is_space s)) \<noteq> []"
    using n by auto
  then show ?thesis by (simp add: js_trim_def)
qed

lemma patch_header_length: "length (patch_header file) = 94 + 3 * length file"
  by (simp add: patch_header_def)

lemma patch_header_not_blank: "js_trim (patch_header file) \<noteq> []"
  by (rule js_trim_nonempty [of "CHR ''I''"]) (simp_all add: patch_header_def is_space_def)

lemma sample_patch_same:
  "createTwoFilesPatch sample_platform file txt (Some (JStr txt)) = Inr (patch_header file)"
  by (simp add: sample_platform_def sample_patch_def)

lemma sample_resolve_string: "resolve sample_platform (Some (JStr file)) = Inr file"
  by (simp add: sample_platform_def sample_resolve_def)

lemma writeFile_gate_examples:
  "gate (snd (writeFile sample_platform (Some (JStr ''/a'')) (Some (JStr ''x'')) False
           (one_file_world ''/a'' ''x''))) = []
   \<and> gate (snd (writeFile sample_platform (Some (JStr ''/b'')) (Some (JStr [])) False
           (one_file_world ''/a'' ''x'')))
       = [(''Create new file'', Some (JStr ''/b''), False)]"
proof -
  have l: "\<not> 100 < length (patch_header ''/a'')" "\<not> 100 < length (patch_header ''/b'')"
    by (simp_all add: patch_header_length)
  have 1: "gate (snd (writeFile sample_platform (Some (JStr ''/a'')) (Some (JStr ''x'')) False
           (one_file_world ''/a'' ''x''))) = []"
    using writeFile_gate [OF sample_resolve_string [of "''/a''"] sample_patch_same [of "''/a''" "''x''"],
        of "one_file_world ''/a'' ''x''" False] l
    by (simp add: one_file_world_def)
  have 2: "gate (snd (writeFile sample_platform (Some (JStr ''/b'')) (Some (JStr [])) False
           (one_file_world ''/a'' ''x'')))
       = [(''Create new file'', Some (JStr ''/b''), False)]"
    using writeFile_gate [OF sample_resolve_string [of "''/b''"] sample_patch_same [of "''/b''" "[]"],
        of "one_file_world ''/a'' ''x''" False] l
    by (simp add: one_file_world_def)
  from 1 2 show ?thesis by simp
qed

text \<open>
  Claim C5. The guard \<open>diff.trim() && diff.length > 100\<close> is there to pass over a patch
  that is blank or small, and a patch is never blank: for two equal texts it is the header,
  94 characters and three times the path. Writing to \<open>/tmp/a.txt\<close> the text it already
  holds gives a patch of 124 characters, and the dialog is called with it.
\<close>

theorem identical_content_prompts:
  "readFileSync (disk (one_file_world ''/tmp/a.txt'' ''x'')) ''/tmp/a.txt'' = Inr ''x''
   \<and> gate (snd (writeFile sample_platform (Some (JStr ''/tmp/a.txt'')) (Some (JStr ''x'')) False
           (one_file_world ''/tmp/a.txt'' ''x'')))
       = [(''Write file: /tmp/a.txt'', Some (JStr (patch_header ''/tmp/a.txt'')), False)]"
proof -
  have r: "(if existsSync (disk (one_file_world ''/tmp/a.txt'' ''x'')) ''/tmp/a.txt''
            then readFileSync (disk (one_file_world ''/tmp/a.txt'' ''x'')) ''/tmp/a.txt''
            else Inr []) = Inr ''x''"
    by (simp add: one_file_world_def existsSync_def readFileSync_def)
  have l: "100 < length (patch_header ''/tmp/a.txt'')" "length (patch_header ''/tmp/a.txt'') \<le> 3000"
    by (simp_all add: patch_header_length)
  have "gate (snd (writeFile sample_platform (Some (JStr ''/tmp/a.txt'')) (Some (JStr ''x'')) False
           (one_file_world ''/tmp/a.txt'' ''x'')))
       = gate (snd (write_gate ''/tmp/a.txt'' (patch_header ''/tmp/a.txt'') False
           (one_file_world ''/tmp/a.txt'' ''x'')))"
    by (rule writeFile_gate_general [OF sample_resolve_string r sample_patch_same])
  also have "\<dots> = [(''Write file: /tmp/a.txt'', Some (JStr (patch_header ''/tmp/a.txt'')), False)]"
    unfolding write_gate_gate using l patch_header_not_blank [of "''/tmp/a.txt''"]
    by (simp add: one_file_world_def)
  finally show ?thesis by (simp add: one_file_world_def readFileSync_def)
qed

section \<open>Malformed tool-call arguments\<close>

lemma decodeArgs_malformed:
  "json_parse pf (template_text a) = None \<Longrightarrow> decodeArgs pf a = JObj []"
  by (simp add: decodeArgs_def)

lemma tool_loop_malformed:
  assumes "json_parse pf t = None"
  shows "tool_loop pf a (tool_call cid name t # calls) ms w =
           (case executeTool pf a (Some (JStr name)) (JObj []) w of
              (Threw e, w') \<Rightarrow> (Threw e, ms, w')
            | (Returned r, w') \<Rightarrow>
                tool_loop pf a calls (ms @ [tool_message (Some (JStr cid)) r]) w')"
  using assms
  by (simp add: tool_call_def member_of_def decodeArgs_def split: prod.splits completion.splits)

lemma empty_args_return:
  assumes "clean_name s \<noteq> ''run_shell''"
  shows "\<exists>r w'. executeTool pf a (Some (JStr s)) (JObj []) w = (Returned r, w')"
proof (cases "s = []")
  case True
  then show ?thesis by (simp add: executeTool.simps clean_name_def)
next
  case False
  have "\<exists>r w'. dispatch pf a (clean_name s) s (JObj []) w = (Returned r, w')"
    using assms
    by (auto simp: dispatch_def httpRequest_def webSearch_def toolChain.simps split: prod.splits)
  with False show ?thesis by (simp add: executeTool_string)
qed

lemma run_shell_no_cmd:
  "executeTool pf False (Some (JStr ''run_shell'')) (JObj []) w
     = (Threw ''Cannot read properties of undefined (reading 'slice')'',
        w\<lparr>gate := gate w @ [(''Shell command'', None, False)]\<rparr>)"
  by (simp add: executeTool_string clean_name_def dispatch_def runShell_def confirm_def
      slice_error_def)

text \<open>
  Claim C7. Decoding the text \<open>{\<close> does not throw and gives the empty mapping, and
  the call goes on with it. For \<open>run_shell\<close> the empty mapping has no \<open>cmd\<close>:
  \<open>runShell(undefined)\<close> reaches \<open>confirm\<close>, whose \<open>detail.slice\<close> throws, and
  the exception leaves \<open>handleTools\<close> after the assistant message was pushed.
\<close>

theorem malformed_run_shell_aborts:
  "json_parse sample_platform ''{'' = None
   \<and> decodeArgs sample_platform (Some (JStr ''{'')) = JObj []
   \<and> handleTools sample_platform False
        (Some (assistant_calls [tool_call ''c1'' ''run_shell'' ''{''])) ms tmp_world
     = (Threw ''Cannot read properties of undefined (reading 'slice')'',
        ms @ [assistant_calls [tool_call ''c1'' ''run_shell'' ''{'']],
        tmp_world\<lparr>gate := [(''Shell command'', None, False)]\<rparr>)"
proof -
  have p: "json_parse sample_platform ''{'' = None"
    by (simp add: sample_platform_def sample_parse_def sample_store_def dangling_store_def)
  have d: "decodeArgs sample_platform (Some (JStr ''{'')) = JObj []"
    using p by (simp add: decodeArgs_def)
  have tl: "tool_loop sample_platform False [tool_call ''c1'' ''run_shell'' ''{'']
              (ms @ [assistant_calls [tool_call ''c1'' ''run_shell'' ''{'']]) tmp_world
     = (Threw ''Cannot read properties of undefined (reading 'slice')'',
        ms @ [assistant_calls [tool_call ''c1'' ''run_shell'' ''{'']],
        tmp_world\<lparr>gate := [(''Shell command'', None, False)]\<rparr>)"
    unfolding tool_loop_malformed [OF p] run_shell_no_cmd by (simp add: tmp_world_def)
  have tc: "member_of (Some (assistant_calls [tool_call ''c1'' ''run_shell'' ''{''])) ''tool_calls''
              = Returned (Some (JArr [tool_call ''c1'' ''run_shell'' ''{'']))"
    by (simp add: member_of_def assistant_calls_def)
  have "handleTools sample_platform False
        (Some (assistant_calls [tool_call ''c1'' ''run_shell'' ''{''])) ms tmp_world
     = (Threw ''Cannot read properties of undefined (reading 'slice')'',
        ms @ [assistant_calls [tool_call ''c1'' ''run_shell'' ''{'']],
        tmp_world\<lparr>gate := [(''Shell command'', None, False)]\<rparr>)"
    unfolding handleTools_def tc by (simp add: tl del: tool_loop.simps)
  with p d show ?thesis by simp
qed


section \<open>A turn that fails\<close>

lemma chat_loop_error:
  assumes "callApi (cfg st) (remote st) = Some (Threw e, rest)"
  shows "chat_loop pf st = Some (Threw e, st\<lparr>remote := rest\<rparr>)"
  using assms by (subst chat_loop.simps) simp

lemma chat_loop_tools:
  assumes "callApi (cfg st) (remote st) = Some (Returned d, rest)"
    and "first_message d = Returned msg"
    and "handleTools pf (auto_yes (cfg st)) msg (messages st) (env st) = (Returned True, ms, w)"
  shows "chat_loop pf st = chat_loop pf (st\<lparr>remote := rest, messages := ms, env := w\<rparr>)"
  using assms by (subst chat_loop.simps) simp

lemma chat_loop_tool_throw:
  assumes "callApi (cfg st) (remote st) = Some (Returned d, rest)"
    and "first_message d = Returned msg"
    and "handleTools pf (auto_yes (cfg st)) msg (messages st) (env st) = (Threw e, ms, w)"
  shows "chat_loop pf st = Some (Threw e, st\<lparr>remote := rest, messages := ms, env := w\<rparr>)"
  using assms by (subst chat_loop.simps) simp

lemma ai_message_first_failure:
  assumes "callApi (cfg st) (remote st) = Some (Threw e, rest)"
  shows "ai_message pf input st = Some (st\<lparr>remote := rest\<rparr>)"
proof -
  have "chat_loop pf (st\<lparr>messages := messages st @ [user_message input]\<rparr>)
          = Some (Threw e, st\<lparr>messages := messages st @ [user_message input], remote := rest\<rparr>)"
    using assms by (simp add: chat_loop_error)
  then show ?thesis by (simp add: ai_message_def)
qed

lemma list_dir_no_path:
  "executeTool sample_platform False (Some (JStr ''list_dir'')) (JObj []) w
     = (Returned (cross_mark @ '' Error: The path argument must be of type string''), w)"
  by (simp add: executeTool_string clean_name_def dispatch_def listDir_def sample_platform_def
      sample_resolve_def)

text \<open>
  Claim C4. The model first asks for \<open>list_dir\<close>, and the request that follows the
  tool round fails. \<open>messages.pop()\<close> then removes the tool message: the user message
  of the turn and the assistant message with the tool call stay in the conversation,
  which began the turn with the system message alone.
\<close>

theorem failure_after_tools_pops_tool_message:
  "map_option messages (ai_message sample_platform ''list /tmp'' failing_app)
     = Some [system_message sample_config, user_message ''list /tmp'',
             assistant_calls [tool_call ''c1'' ''list_dir'' ''{}'']]
   \<and> messages failing_app = [system_message sample_config]"
proof -
  let ?asst = "assistant_calls [tool_call ''c1'' ''list_dir'' ''{}'']"
  let ?ms1 = "[system_message sample_config, user_message ''list /tmp'']"
  let ?tm = "tool_message (Some (JStr ''c1''))
               (cross_mark @ '' Error: The path argument must be of type string'')"
  let ?ms2 = "[system_message sample_config, user_message ''list /tmp'', ?asst]"
  let ?ms3 = "[system_message sample_config, user_message ''list /tmp'', ?asst, ?tm]"
  let ?st1 = "failing_app\<lparr>messages := ?ms1\<rparr>"
  let ?st2 = "?st1\<lparr>remote := [NetworkFailure ''socket hang up''], messages := ?ms3, env := tmp_world\<rparr>"
  have p: "json_parse sample_platform ''{}'' = Some (JObj [])"
    by (simp add: sample_platform_def sample_parse_def)
  have fm: "first_message (response ?asst) = Returned (Some ?asst)"
    by (simp add: first_message_def response_def member_of_def assistant_calls_def)
  have tl: "tool_loop sample_platform False [tool_call ''c1'' ''list_dir'' ''{}''] ?ms2 tmp_world
              = (Returned (), ?ms3, tmp_world)"
    by (simp add: tool_call_def member_of_def decodeArgs_def p list_dir_no_path)
  have tc: "member_of (Some ?asst) ''tool_calls'' = Returned (Some (JArr [tool_call ''c1'' ''list_dir'' ''{}'']))"
    by (simp add: member_of_def assistant_calls_def)
  have ht: "handleTools sample_platform False (Some ?asst) ?ms1 tmp_world
              = (Returned True, ?ms3, tmp_world)"
    unfolding handleTools_def tc by (simp add: tl del: tool_loop.simps)
  have a1: "callApi (cfg ?st1) (remote ?st1)
              = Some (Returned (response ?asst), [NetworkFailure ''socket hang up''])"
    by (simp add: callApi_def failing_app_def sample_config_def)
  have h1: "handleTools sample_platform (auto_yes (cfg ?st1)) (Some ?asst) (messages ?st1) (env ?st1)
              = (Returned True, ?ms3, tmp_world)"
    using ht by (simp add: failing_app_def sample_config_def)
  have a2: "callApi (cfg ?st2) (remote ?st2) = Some (Threw ''Network error: socket hang up'', [])"
    by (simp add: callApi_def failing_app_def sample_config_def)
  have "chat_loop sample_platform ?st1 = chat_loop sample_platform ?st2"
    by (rule chat_loop_tools [OF a1 fm h1])
  also have "\<dots> = Some (Threw ''Network error: socket hang up'', ?st2\<lparr>remote := []\<rparr>)"
    by (rule chat_loop_error [OF a2])
  finally have "ai_message sample_platform ''list /tmp'' failing_app
                  = Some (?st2\<lparr>remote := [], messages := ?ms2\<rparr>)"
    by (simp add: ai_message_def failing_app_def)
  then show ?thesis by (simp add: failing_app_def)
qed

section \<open>Properties of the autopilot\<close>


































section \<open>Properties of the session store\<close>

lemma render_dangling:
  "render dangling_store = ''{\"current\":\"x\",\"chats\":{\"a\":[]}}''"
  by (simp add: dangling_store_def)

lemma render_sample_store:
  "render sample_store
     = ''{\"current\":\"work\",\"chats\":{\"default\":[],\"work\":[{\"role\":\"user\",\"content\":\"hi\"}]}}''"
  by (simp add: sample_store_def)

lemma parse_dangling: "json_parse sample_platform (render dangling_store) = Some dangling_store"
  by (simp add: sample_platform_def sample_parse_def render_dangling render_sample_store)

text \<open>
  Claim C1. Importing a store file whose \<open>current\<close> names no entry of its \<open>chats\<close>:
  \<open>/import\<close> takes the parsed data as the store as it is, without the repair that
  \<open>loadHistoryState\<close> and the start of \<open>main\<close> make, and \<open>current\<close> is left
  pointing at nothing.
\<close>

theorem import_leaves_current_dangling:
  "current_resolves (historyState (fresh_app backup_world))
   \<and> historyState (import_cmd sample_platform ''backup.json'' (fresh_app backup_world))
       = dangling_store
   \<and> field dangling_store ''current'' = Some (JStr ''x'')
   \<and> object_keys (chats dangling_store) = [''a'']
   \<and> \<not> current_resolves (historyState (import_cmd sample_platform ''backup.json'' (fresh_app backup_world)))"
proof -
  have r: "readFileSync (disk (env (fresh_app backup_world))) ''backup.json''
             = Inr (render dangling_store)"
    by (simp add: fresh_app_def backup_world_def readFileSync_def)
  have c: "truthy (field dangling_store ''chats'')" "dangling_store \<noteq> JNull"
    by (simp_all add: dangling_store_def)
  have i: "historyState (import_cmd sample_platform ''backup.json'' (fresh_app backup_world))
       = dangling_store"
    unfolding import_cmd_def r
    by (simp add: parse_dangling c Let_def split: completion.splits)
  have k: "object_keys (chats dangling_store) = [''a'']"
    by (simp add: dangling_store_def chats_def)
  have f: "field dangling_store ''current'' = Some (JStr ''x'')"
    by (simp add: dangling_store_def)
  have "current_resolves (historyState (fresh_app backup_world))"
    by (simp add: fresh_app_def fresh_store_def current_resolves_def chats_def key_of_def)
  moreover have "\<not> current_resolves dangling_store"
    by (simp add: current_resolves_def f k key_of_def)
  ultimately show ?thesis using i k f by simp
qed

lemma insert_index_keys:
  "set (map fst (insert_index i k v kvs)) = insert k (set (map fst kvs))"
proof (induction kvs)
  case Nil
  show ?case by simp
next
  case (Cons a kvs)
  show ?case
  proof (cases "array_index (fst a)")
    case None
    then show ?thesis by (cases a) auto
  next
    case (Some j)
    with Cons show ?thesis by (cases a) auto
  qed
qed

lemma obj_put_keys:
  assumes "k \<in> fst ` set kvs \<or> k \<noteq> ''__proto__''"
  shows "set (map fst (obj_put kvs k v)) = insert k (set (map fst kvs))"
proof (cases "k \<in> fst ` set kvs")
  case True
  have "map fst (map (\<lambda>(k', v'). if k' = k then (k', v) else (k', v')) kvs) = map fst kvs"
    by (induction kvs) auto
  with True show ?thesis by (auto simp: obj_put_def)
next
  case False
  with assms have "k \<noteq> ''__proto__''" by simp
  with False show ?thesis
    by (cases "array_index k") (auto simp: obj_put_def insert_index_keys simp del: set_map)
qed

lemma obj_put_keeps_keys: "set (map fst kvs) \<subseteq> set (map fst (obj_put kvs k v))"
proof (cases "k \<in> fst ` set kvs \<or> k \<noteq> ''__proto__''")
  case True
  then show ?thesis unfolding obj_put_keys [OF True] by blast
next
  case False
  then have "obj_put kvs k v = kvs" by (auto simp: obj_put_def)
  then show ?thesis by simp
qed

lemma map_of_insert_index:
  "k \<notin> fst ` set kvs \<Longrightarrow>
     map_of (insert_index i k v kvs) k' = (if k' = k then Some v else map_of kvs k')"
proof (induction kvs)
  case Nil
  show ?case by simp
next
  case (Cons a kvs)
  then have "k \<notin> fst ` set kvs" "fst a \<noteq> k" by auto
  with Cons.IH show ?case
    by (cases a; cases "array_index (fst a)") auto
qed

lemma map_of_replace:
  "map_of (map (\<lambda>(k', v'). if k' = k then (k', v) else (k', v')) kvs) k'
     = (if k' = k \<and> k \<in> fst ` set kvs then Some v else map_of kvs k')"
proof (induction kvs)
  case Nil
  show ?case by simp
next
  case (Cons a kvs)
  then show ?case by (cases a) (auto simp: image_iff, fastforce)
qed

lemma map_of_append_new:
  "k \<notin> fst ` set kvs \<Longrightarrow> map_of (kvs @ [(k, v)]) k' = (if k' = k then Some v else map_of kvs k')"
proof (induction kvs)
  case Nil
  show ?case by simp
next
  case (Cons a kvs)
  then have "k \<notin> fst ` set kvs" "fst a \<noteq> k" by auto
  with Cons.IH show ?case by (cases a) (auto simp del: map_of_append)
qed

lemma map_of_obj_put:
  assumes "k \<in> fst ` set kvs \<or> k \<noteq> ''__proto__''"
  shows "map_of (obj_put kvs k v) k' = (if k' = k then Some v else map_of kvs k')"
proof (cases "k \<in> fst ` set kvs")
  case True
  then show ?thesis unfolding obj_put_def by (simp only: if_True map_of_replace) simp
next
  case False
  with assms have p: "k \<noteq> ''__proto__''" by simp
  show ?thesis
  proof (cases "array_index k")
    case None
    with False p show ?thesis
      unfolding obj_put_def by (simp only: if_False option.case map_of_append_new [OF False])
  next
    case (Some i)
    with False p show ?thesis
      unfolding obj_put_def by (simp only: if_False option.case map_of_insert_index [OF False])
  qed
qed

lemma map_of_put_chats:
  "map_of (obj_put kvs ''chats'' v) k' = (if k' = ''chats'' then Some v else map_of kvs k')"
  by (rule map_of_obj_put) simp

lemma map_of_put_current:
  "map_of (obj_put kvs ''current'' v) k' = (if k' = ''current'' then Some v else map_of kvs k')"
  by (rule map_of_obj_put) simp

lemma lookup_own:
  assumes "k \<in> fst ` set kvs \<or> k \<notin> set object_prototype"
  shows "lookup (JObj kvs) k = map_option Data (map_of kvs k)"
proof (cases "map_of kvs k")
  case None
  then have "k \<notin> fst ` set kvs" by (simp add: map_of_eq_None_iff)
  with assms None show ?thesis by (simp add: lookup_def)
next
  case (Some v)
  then show ?thesis by (simp add: lookup_def)
qed

lemma default_not_inherited: "''default'' \<notin> set object_prototype"
  by (simp add: object_prototype_def)

lemma proto_inherited: "''__proto__'' \<in> set object_prototype"
  by (simp add: object_prototype_def)

lemma truthy_field_key: "truthy (field (JObj kvs) k) \<Longrightarrow> k \<in> set (map fst kvs)"
proof -
  assume "truthy (field (JObj kvs) k)"
  then obtain v where "map_of kvs k = Some v" by (cases "map_of kvs k") auto
  then have "(k, v) \<in> set kvs" by (rule map_of_SomeD)
  then show ?thesis by force
qed

lemma obj_delete_keys: "set (map fst (obj_delete kvs k)) = set (map fst kvs) - {k}"
  unfolding obj_delete_def by (induction kvs) auto

lemma is_digit_digit_char: "d < 10 \<Longrightarrow> is_digit (digit_char d)"
  by (simp add: is_digit_def digit_char_def)

lemma show_nat_digits: "c \<in> set (show_nat n) \<Longrightarrow> is_digit c"
proof (induction n rule: show_nat.induct)
  case (1 n)
  show ?case
  proof (cases "n < 10")
    case True
    with 1(2) show ?thesis by (simp add: show_nat.simps [of n] is_digit_digit_char)
  next
    case False
    with 1 show ?thesis
      by (auto simp: show_nat.simps [of n] is_digit_digit_char)
  qed
qed

lemma array_index_non_digit: "c \<in> set k \<Longrightarrow> \<not> is_digit c \<Longrightarrow> array_index k = None"
  using show_nat_digits [of c "read_nat k"] by (auto simp: array_index_def)

lemma array_index_examples:
  "array_index ''b'' = None" "array_index ''a'' = None" "array_index ''default'' = None"
  by (rule array_index_non_digit [of "CHR ''b''"], simp, simp add: is_digit_def)
     (rule array_index_non_digit [of "CHR ''a''"], simp, simp add: is_digit_def)+

lemma chat_new_store:
  "\<not> present (chat (historyState st) n) \<Longrightarrow>
     historyState (chat_new pf n st)
       = set_member (set_chat (historyState st) n (JArr [])) ''current'' (JStr n)"
  by (simp add: chat_new_def Let_def)

lemma two_chats_store:
  "historyState (chat_new sample_platform ''b'' (fresh_app empty_world))
     = JObj [(''current'', JStr ''b''), (''chats'', JObj [(''default'', JArr []), (''b'', JArr [])])]"
proof -
  have "\<not> present (chat (historyState (fresh_app empty_world)) ''b'')"
    by (simp add: fresh_app_def fresh_store_def chat_def chats_def lookup_def object_prototype_def)
  from chat_new_store [OF this] show ?thesis
    by (simp add: fresh_app_def fresh_store_def chats_def set_chat_def obj_put_def
        array_index_examples)
qed

lemma three_chats_store:
  "historyState three_chats
     = JObj [(''current'', JStr ''a''),
             (''chats'', JObj [(''default'', JArr []), (''b'', JArr []), (''a'', JArr [])])]"
proof -
  have "\<not> present (chat (historyState (chat_new sample_platform ''b'' (fresh_app empty_world))) ''a'')"
    unfolding two_chats_store by (simp add: chat_def chats_def lookup_def object_prototype_def)
  from chat_new_store [OF this] show ?thesis
    unfolding three_chats_def two_chats_store
    by (simp add: chats_def set_chat_def obj_put_def array_index_examples)
qed

lemma chats_put_chats: "chats (JObj (obj_put kvs ''chats'' c)) = c"
  by (simp add: chats_def map_of_put_chats)

lemma chats_put_current: "chats (JObj (obj_put kvs ''current'' x)) = chats (JObj kvs)"
  by (simp add: chats_def map_of_put_current)

lemma current_put_chats: "field (JObj (obj_put kvs ''chats'' c)) ''current'' = map_of kvs ''current''"
  by (simp add: map_of_put_chats)

lemma current_put_current: "field (JObj (obj_put kvs ''current'' x)) ''current'' = Some x"
  by (simp add: map_of_put_current)

lemma chat_delete_current:
  assumes "name \<noteq> []" and "present (chat (historyState st) name)"
    and "set_member (historyState st) ''chats'' (delete_member (chats (historyState st)) name) = hs1"
    and "field hs1 ''current'' = Some (JStr name)"
    and "set_member (if \<not> present (chat hs1 (next_chat hs1))
                     then set_chat hs1 (next_chat hs1) (JArr []) else hs1)
           ''current'' (JStr (next_chat hs1)) = hs3"
  shows "chat_delete pf name st
           = (case spread (chat hs3 (next_chat hs1)) of
                Threw e \<Rightarrow> Threw e
              | Returned xs \<Rightarrow>
                  Returned (st\<lparr>historyState := hs3, currentChat := JStr (next_chat hs1),
                              history := the (chat hs3 (next_chat hs1)),
                              messages := system_message (cfg st) # xs,
                              env := saveHistoryState pf hs3 (env st)\<rparr>))"
  unfolding chat_delete_def Let_def assms(3) assms(5)
  by (simp add: assms(1,2,4))

lemma next_chat_successor:
  "next_chat (JObj (obj_put kvs ''chats'' (JObj rest))) = successor rest"
  by (simp add: next_chat_def successor_def chats_put_chats)

lemma successor_own: "successor rest \<in> fst ` set rest \<or> successor rest = ''default''"
  by (cases rest) (auto simp: successor_def)

lemma successor_lookup:
  "lookup (JObj rest) (successor rest) = map_option Data (map_of rest (successor rest))"
  using successor_own [of rest] by (intro lookup_own) (auto simp: default_not_inherited)

lemma successor_put: "successor rest \<in> fst ` set rest \<or> successor rest \<noteq> ''__proto__''"
  using successor_own [of rest] by auto

lemma spread_iterable:
  "(\<exists>xs. spread (Some (Data v)) = Returned xs) \<longleftrightarrow> iterable v"
  by (cases v) (simp_all add: spread_def)

lemma chat_delete_store:
  assumes "historyState st = JObj kvs" and "map_of kvs ''chats'' = Some (JObj cs)"
    and "map_of kvs ''current'' = Some (JStr name)"
    and "name \<noteq> []" and "present (lookup (JObj cs) name)"
  shows "case chat_delete pf name st of
           Returned st' \<Rightarrow>
             iterable (the (map_of (with_session (obj_delete cs name) (successor (obj_delete cs name)))
                                   (successor (obj_delete cs name)))) \<and>
             field (historyState st') ''current'' = Some (JStr (successor (obj_delete cs name))) \<and>
             chats (historyState st')
               = JObj (with_session (obj_delete cs name) (successor (obj_delete cs name))) \<and>
             current_resolves (historyState st') \<and>
             env st' = saveHistoryState pf (historyState st') (env st)
         | Threw e \<Rightarrow>
             \<not> iterable (the (map_of (with_session (obj_delete cs name) (successor (obj_delete cs name)))
                                     (successor (obj_delete cs name))))"
proof -
  let ?rest = "obj_delete cs name"
  let ?n = "successor ?rest"
  let ?cs = "with_session ?rest ?n"
  let ?k1 = "obj_put kvs ''chats'' (JObj ?rest)"
  let ?hs1 = "JObj ?k1"
  have ch: "chats (historyState st) = JObj cs" using assms(1,2) by (simp add: chats_def)
  have pr: "present (chat (historyState st) name)" using assms(5) by (simp add: chat_def ch)
  have ch0: "chats (JObj kvs) = JObj cs" using assms(2) by (simp add: chats_def)
  have hs1: "set_member (historyState st) ''chats'' (delete_member (chats (historyState st)) name) = ?hs1"
    by (simp add: assms(1) ch0)
  have cur1: "field ?hs1 ''current'' = Some (JStr name)"
    by (simp add: map_of_put_chats assms(3))
  have nx: "next_chat ?hs1 = ?n" by (rule next_chat_successor)
  have p1: "present (chat ?hs1 ?n) = truthy (map_of ?rest ?n)"
    by (cases "map_of ?rest ?n") (simp_all add: chat_def chats_put_chats successor_lookup)
  define k2 where "k2 = (if truthy (map_of ?rest ?n) then ?k1 else obj_put ?k1 ''chats'' (JObj ?cs))"
  let ?hs3 = "JObj (obj_put k2 ''current'' (JStr ?n))"
  have c2: "chats (JObj k2) = JObj ?cs"
    by (simp add: k2_def chats_put_chats with_session_def)
  have e3: "set_member (if \<not> present (chat ?hs1 (next_chat ?hs1))
                     then set_chat ?hs1 (next_chat ?hs1) (JArr []) else ?hs1)
           ''current'' (JStr (next_chat ?hs1)) = ?hs3"
    unfolding nx p1 by (simp add: k2_def set_chat_def chats_put_chats with_session_def)
  have c3: "chats ?hs3 = JObj ?cs" by (simp add: chats_put_current c2)
  obtain v where v: "map_of ?cs ?n = Some v"
  proof (cases "truthy (map_of ?rest ?n)")
    case True
    then obtain v where "map_of ?rest ?n = Some v" by (cases "map_of ?rest ?n") auto
    with True that show ?thesis by (simp add: with_session_def)
  next
    case False
    with that show ?thesis
      by (simp add: with_session_def map_of_obj_put [OF successor_put])
  qed
  then have own: "?n \<in> fst ` set ?cs" by (metis map_of_eq_None_iff option.distinct(1))
  then have l3: "chat ?hs3 ?n = Some (Data v)"
    by (simp add: chat_def c3 lookup_own v)
  have res: "current_resolves ?hs3"
    using own unfolding current_resolves_def c3 by (simp add: map_of_put_current key_of_def)
  have d: "chat_delete pf name st
           = (case spread (Some (Data v)) of
                Threw e \<Rightarrow> Threw e
              | Returned xs \<Rightarrow>
                  Returned (st\<lparr>historyState := ?hs3, currentChat := JStr ?n,
                              history := Data v,
                              messages := system_message (cfg st) # xs,
                              env := saveHistoryState pf ?hs3 (env st)\<rparr>))"
    using chat_delete_current [OF assms(4) pr hs1 cur1 e3, of pf] unfolding nx l3
    by (simp split: completion.splits)
  show ?thesis
  proof (cases "iterable v")
    case True
    then obtain xs where "spread (Some (Data v)) = Returned xs"
      using spread_iterable [of v] by blast
    with d True v res c3 show ?thesis by (simp add: map_of_put_current)
  next
    case False
    then obtain e where "spread (Some (Data v)) = Threw e"
      using spread_iterable [of v] by (cases "spread (Some (Data v))") auto
    with d False v show ?thesis by simp
  qed
qed

lemma chat_delete_nothing:
  assumes "historyState st = JObj kvs" and "map_of kvs ''chats'' = Some (JObj cs)"
    and "name = [] \<or> \<not> present (lookup (JObj cs) name)"
  shows "chat_delete pf name st = Returned st"
  using assms by (auto simp: chat_delete_def chat_def chats_def)

text \<open>
  Claim C6, as amended. In a store whose \<open>chats\<close> is an object and whose \<open>current\<close> is
  the name given to \<open>/chat delete\<close>: an empty name, or a name under which \<open>chats\<close> has
  nothing truthy, changes nothing. Otherwise the session is removed and the name that
  becomes current is the first remaining one in the order in which the object enumerates
  its keys, or \<open>default\<close> when none remains or when that first name is the empty string;
  under that name an empty session is created where there is none, or a falsy value.
  When the session under the chosen name can be iterated, the command returns, with that
  name as \<open>current\<close>, those sessions, a \<open>current\<close> that resolves, and the store
  saved; when it cannot, the command throws, which ends the program.
\<close>

theorem chat_delete_switches:
  assumes "historyState st = JObj kvs" and "map_of kvs ''chats'' = Some (JObj cs)"
    and "map_of kvs ''current'' = Some (JStr name)"
  shows "(name = [] \<or> \<not> present (lookup (JObj cs) name) \<longrightarrow>
            chat_delete pf name st = Returned st)
       \<and> (name \<noteq> [] \<and> present (lookup (JObj cs) name) \<longrightarrow>
            (case chat_delete pf name st of
               Returned st' \<Rightarrow>
                 iterable (the (map_of (with_session (obj_delete cs name) (successor (obj_delete cs name)))
                                       (successor (obj_delete cs name)))) \<and>
                 field (historyState st') ''current'' = Some (JStr (successor (obj_delete cs name))) \<and>
                 chats (historyState st')
                   = JObj (with_session (obj_delete cs name) (successor (obj_delete cs name))) \<and>
                 current_resolves (historyState st') \<and>
                 env st' = saveHistoryState pf (historyState st') (env st)
             | Threw e \<Rightarrow>
                 \<not> iterable (the (map_of (with_session (obj_delete cs name) (successor (obj_delete cs name)))
                                         (successor (obj_delete cs name))))))"
proof (intro conjI impI)
  assume "name = [] \<or> \<not> present (lookup (JObj cs) name)"
  with assms(1,2) show "chat_delete pf name st = Returned st" by (rule chat_delete_nothing)
next
  assume "name \<noteq> [] \<and> present (lookup (JObj cs) name)"
  then have "name \<noteq> []" "present (lookup (JObj cs) name)" by simp_all
  with assms show "case chat_delete pf name st of
               Returned st' \<Rightarrow>
                 iterable (the (map_of (with_session (obj_delete cs name) (successor (obj_delete cs name)))
                                       (successor (obj_delete cs name)))) \<and>
                 field (historyState st') ''current'' = Some (JStr (successor (obj_delete cs name))) \<and>
                 chats (historyState st')
                   = JObj (with_session (obj_delete cs name) (successor (obj_delete cs name))) \<and>
                 current_resolves (historyState st') \<and>
                 env st' = saveHistoryState pf (historyState st') (env st)
             | Threw e \<Rightarrow>
                 \<not> iterable (the (map_of (with_session (obj_delete cs name) (successor (obj_delete cs name)))
                                         (successor (obj_delete cs name))))"
    by (rule chat_delete_store)
qed

lemma three_chats_delete:
  "\<exists>st'. chat_delete sample_platform ''a'' three_chats = Returned st' \<and>
     field (historyState st') ''current'' = Some (JStr ''default'') \<and>
     object_keys (chats (historyState st')) = [''default'', ''b'']"
proof -
  have d: "obj_delete [(''default'', JArr []), (''b'', JArr []), (''a'', JArr [])] ''a''
             = [(''default'', JArr []), (''b'', JArr [])]"
    by (simp add: obj_delete_def)
  have s: "successor [(''default'', JArr []), (''b'', JArr [])] = ''default''"
    by (simp add: successor_def)
  have w: "with_session [(''default'', JArr []), (''b'', JArr [])] ''default''
             = [(''default'', JArr []), (''b'', JArr [])]"
    by (simp add: with_session_def)
  have p: "present (lookup (JObj [(''default'', JArr []), (''b'', JArr []), (''a'', JArr [])]) ''a'')"
    by (simp add: lookup_def)
  have "case chat_delete sample_platform ''a'' three_chats of
           Returned st' \<Rightarrow>
             iterable (the (map_of (with_session (obj_delete [(''default'', JArr []), (''b'', JArr []), (''a'', JArr [])] ''a'')
                                      (successor (obj_delete [(''default'', JArr []), (''b'', JArr []), (''a'', JArr [])] ''a'')))
                                   (successor (obj_delete [(''default'', JArr []), (''b'', JArr []), (''a'', JArr [])] ''a'')))) \<and>
             field (historyState st') ''current''
               = Some (JStr (successor (obj_delete [(''default'', JArr []), (''b'', JArr []), (''a'', JArr [])] ''a''))) \<and>
             chats (historyState st')
               = JObj (with_session (obj_delete [(''default'', JArr []), (''b'', JArr []), (''a'', JArr [])] ''a'')
                         (successor (obj_delete [(''default'', JArr []), (''b'', JArr []), (''a'', JArr [])] ''a''))) \<and>
             current_resolves (historyState st') \<and>
             env st' = saveHistoryState sample_platform (historyState st') (env three_chats)
         | Threw e \<Rightarrow>
             \<not> iterable (the (map_of (with_session (obj_delete [(''default'', JArr []), (''b'', JArr []), (''a'', JArr [])] ''a'')
                                        (successor (obj_delete [(''default'', JArr []), (''b'', JArr []), (''a'', JArr [])] ''a'')))
                                     (successor (obj_delete [(''default'', JArr []), (''b'', JArr []), (''a'', JArr [])] ''a''))))"
    by (rule chat_delete_store [OF three_chats_store]) (simp_all add: p)
  then show ?thesis
    unfolding d s w by (cases "chat_delete sample_platform ''a'' three_chats") simp_all
qed

lemma unnamed_chat_store:
  "historyState unnamed_chat
     = JObj [(''current'', JStr ''x''),
             (''chats'', JObj [(''x'', JArr []), ([], JArr []), (''b'', JArr [])])]"
  by (simp add: unnamed_chat_def)

theorem chat_delete_switches_witness:
  "field (store_after (chat_delete sample_platform ''x'' unnamed_chat)) ''current''
       = Some (JStr ''default'')
   \<and> object_keys (chats (store_after (chat_delete sample_platform ''x'' unnamed_chat)))
       = [[], ''b'', ''default'']
   \<and> current_resolves (store_after (chat_delete sample_platform ''x'' unnamed_chat))
   \<and> chat_delete sample_platform ''x'' dangling_app = Returned dangling_app"
proof -
  have d: "obj_delete [(''x'', JArr []), ([], JArr []), (''b'', JArr [])] ''x''
             = [([], JArr []), (''b'', JArr [])]"
    by (simp add: obj_delete_def)
  have s: "successor [([], JArr []), (''b'', JArr [])] = ''default''"
    by (simp add: successor_def)
  have w: "with_session [([], JArr []), (''b'', JArr [])] ''default''
             = [([], JArr []), (''b'', JArr []), (''default'', JArr [])]"
    by (simp add: with_session_def obj_put_def array_index_examples)
  have p: "''x'' \<noteq> [] \<and> present (lookup (JObj [(''x'', JArr []), ([], JArr []), (''b'', JArr [])]) ''x'')"
    by (simp add: lookup_def)
  from chat_delete_switches [OF unnamed_chat_store, of "[(''x'', JArr []), ([], JArr []), (''b'', JArr [])]" "''x''" sample_platform] p
  have 1: "field (store_after (chat_delete sample_platform ''x'' unnamed_chat)) ''current''
             = Some (JStr ''default'')
     \<and> object_keys (chats (store_after (chat_delete sample_platform ''x'' unnamed_chat)))
             = [[], ''b'', ''default'']
     \<and> current_resolves (store_after (chat_delete sample_platform ''x'' unnamed_chat))"
    unfolding d s w
    by (cases "chat_delete sample_platform ''x'' unnamed_chat") (simp_all add: store_after_def d s w)
  have h: "historyState dangling_app = JObj [(''current'', JStr ''x''), (''chats'', JObj [(''a'', JArr [])])]"
    by (simp add: dangling_app_def dangling_store_def)
  have n: "\<not> present (lookup (JObj [(''a'', JArr [])]) ''x'')"
    by (simp add: lookup_def object_prototype_def)
  from chat_delete_switches [OF h, of "[(''a'', JArr [])]" "''x''" sample_platform] n
  have 2: "chat_delete sample_platform ''x'' dangling_app = Returned dangling_app" by simp
  from 1 2 show ?thesis by simp
qed

text \<open>
  After \<open>/chat new b\<close> and \<open>/chat new a\<close> on a fresh store, deleting the current
  session \<open>a\<close> switches to \<open>default\<close>, the first key, although \<open>b\<close> remains and
  comes before \<open>default\<close> in the lexicographic order.
\<close>

theorem chat_delete_order_counterexample:
  "field (historyState three_chats) ''current'' = Some (JStr ''a'')
   \<and> field (store_after (chat_delete sample_platform ''a'' three_chats)) ''current''
       = Some (JStr ''default'')
   \<and> object_keys (chats (store_after (chat_delete sample_platform ''a'' three_chats)))
       = [''default'', ''b'']
   \<and> ''b'' < ''default''"
proof -
  from three_chats_delete obtain st' where
    "chat_delete sample_platform ''a'' three_chats = Returned st'"
    "field (historyState st') ''current'' = Some (JStr ''default'')"
    "object_keys (chats (historyState st')) = [''default'', ''b'']" by blast
  then show ?thesis by (simp add: store_after_def three_chats_store)
qed

lemma export_writes:
  assumes "file \<noteq> []" and "disk (env st) file \<noteq> Some Directory"
    and "\<forall>e. disk (env st) file \<noteq> Some (Unreadable e)"
  shows "disk (env (export_cmd pf file st))
           = (disk (env st))(file \<mapsto> RegFile (stringify pf (historyState st)))"
  using assms
  by (cases "disk (env st) file")
     (auto simp: export_cmd_def writeFileSync_def split: node.splits)

lemma import_reads:
  assumes "file \<noteq> []" and "disk (env t) file = Some (RegFile txt)"
    and "json_parse pf txt = Some data" and "truthy (field data ''chats'')"
  shows "historyState (import_cmd pf file t) = data"
proof -
  have "data \<noteq> JNull" using assms(4) by auto
  then show ?thesis
    using assms
    by (simp add: import_cmd_def readFileSync_def Let_def split: completion.splits)
qed

text \<open>
  Claim C8. When the export to \<open>file\<close> succeeds and \<open>JSON.parse\<close> reads back what
  \<open>JSON.stringify\<close> wrote, an import of \<open>file\<close>, into any state of the program that
  still has the file as written, restores the exported store: the same \<open>chats\<close> and
  the same \<open>current\<close>.
\<close>

theorem export_import_roundtrip:
  assumes "file \<noteq> []" and "disk (env st) file \<noteq> Some Directory"
    and "\<forall>e. disk (env st) file \<noteq> Some (Unreadable e)"
    and "json_parse pf (stringify pf (historyState st)) = Some (historyState st)"
    and "truthy (field (historyState st) ''chats'')"
    and "disk (env t) file = disk (env (export_cmd pf file st)) file"
  shows "historyState (import_cmd pf file t) = historyState st
         \<and> chats (historyState (import_cmd pf file t)) = chats (historyState st)
         \<and> field (historyState (import_cmd pf file t)) ''current'' = field (historyState st) ''current''"
proof -
  have "disk (env t) file = Some (RegFile (stringify pf (historyState st)))"
    using export_writes [OF assms(1-3), of pf] assms(6) by simp
  from import_reads [OF assms(1) this assms(4,5)] show ?thesis by simp
qed

lemma clear_keeps_other_files:
  "file \<noteq> HIST_FILE pf \<Longrightarrow> disk (env (clear_cmd pf st)) file = disk (env st) file"
  by (simp add: clear_cmd_def saveHistoryState_def saveJson_def Let_def split: sum.splits)
     (auto simp: writeFileSync_def split: option.splits node.splits)

theorem export_import_roundtrip_witness:
  "historyState (import_cmd sample_platform ''out.json''
      (export_cmd sample_platform ''out.json'' exporting_app)) = sample_store
   \<and> historyState (import_cmd sample_platform ''out.json''
      (clear_cmd sample_platform (export_cmd sample_platform ''out.json'' exporting_app)))
      = sample_store"
proof -
  have p: "json_parse sample_platform (stringify sample_platform (historyState exporting_app))
             = Some (historyState exporting_app)"
    by (simp add: sample_platform_def sample_parse_def exporting_app_def render_sample_store)
  have c: "truthy (field (historyState exporting_app) ''chats'')"
    by (simp add: exporting_app_def sample_store_def)
  have d: "disk (env exporting_app) ''out.json'' \<noteq> Some Directory"
    "\<forall>e. disk (env exporting_app) ''out.json'' \<noteq> Some (Unreadable e)"
    by (simp_all add: exporting_app_def fresh_app_def empty_world_def)
  have n: "''out.json'' \<noteq> []" by simp
  have h: "historyState exporting_app = sample_store" by (simp add: exporting_app_def)
  have "''out.json'' \<noteq> HIST_FILE sample_platform"
    by (simp add: HIST_FILE_def homedir_file_def sample_platform_def)
  then have k: "disk (env (clear_cmd sample_platform (export_cmd sample_platform ''out.json'' exporting_app)))
              ''out.json''
            = disk (env (export_cmd sample_platform ''out.json'' exporting_app)) ''out.json''"
    by (rule clear_keeps_other_files)
  from export_import_roundtrip [OF n d p c, of "export_cmd sample_platform ''out.json'' exporting_app"]
    export_import_roundtrip [OF n d p c k]
  show ?thesis unfolding h by simp
qed

subsection \<open>The paths that keep \<open>current\<close> resolved\<close>

text \<open>
  Loading repairs the pointer unless it is the name of an inherited member, and
  \<open>/chat new\<close>, \<open>/chat use\<close> and \<open>/clear\<close> keep it resolved on a store whose
  \<open>chats\<close> is an object.
\<close>

lemma legacy_upgrade:
  "loadJson pf d (HIST_FILE pf) fresh_store = JArr xs \<Longrightarrow>
     loadHistoryState pf d
       = JObj [(''current'', JStr ''default''), (''chats'', JObj [(''default'', JArr xs)])]"
  by (simp add: loadHistoryState_def)

lemma present_lookup:
  "present (lookup (JObj kvs) k) \<Longrightarrow> k \<in> set (map fst kvs) \<or> k \<in> set object_prototype"
proof (cases "map_of kvs k")
  case None
  assume "present (lookup (JObj kvs) k)"
  with None show ?thesis by (simp add: lookup_def split: if_splits)
next
  case (Some v)
  then have "(k, v) \<in> set kvs" by (rule map_of_SomeD)
  then show ?thesis by force
qed

lemma absent_lookup:
  "\<not> present (lookup (JObj kvs) k) \<Longrightarrow> k \<in> fst ` set kvs \<or> k \<noteq> ''__proto__''"
proof (cases "map_of kvs k")
  case None
  assume "\<not> present (lookup (JObj kvs) k)"
  with None have "k \<notin> set object_prototype" by (simp add: lookup_def split: if_splits)
  then show ?thesis using proto_inherited by auto
next
  case (Some v)
  then have "(k, v) \<in> set kvs" by (rule map_of_SomeD)
  then show ?thesis by force
qed

lemma set_member_keys:
  "key \<in> fst ` set c \<or> key \<noteq> ''__proto__'' \<Longrightarrow> key \<in> set (object_keys (set_member (JObj c) key v))"
  using obj_put_keys [of key c v] by simp

lemma loadHistoryState_resolves:
  assumes "\<forall>xs. field (loadJson pf d (HIST_FILE pf) fresh_store) ''chats'' \<noteq> Some (JArr xs)"
    and "key_of (or_default (field (loadJson pf d (HIST_FILE pf) fresh_store) ''current''))
           \<notin> set object_prototype"
  shows "current_resolves (loadHistoryState pf d)"
proof -
  let ?data = "loadJson pf d (HIST_FILE pf) fresh_store"
  show ?thesis
  proof (cases "is_array ?data")
    case True
    then show ?thesis
      by (simp add: loadHistoryState_def current_resolves_def chats_def key_of_def)
  next
    case False
    show ?thesis
    proof (cases "is_object (Some ?data)")
      case no: False
      with False show ?thesis
        by (simp add: loadHistoryState_def current_resolves_def chats_def key_of_def fresh_store_def)
    next
      case True
      let ?cs = "if is_object (field ?data ''chats'') then the (field ?data ''chats'') else JObj []"
      let ?cur = "or_default (field ?data ''current'')"
      let ?cs' = "if \<not> present (lookup ?cs (key_of ?cur)) then set_member ?cs (key_of ?cur) (JArr []) else ?cs"
      have "\<exists>c. ?cs = JObj c"
      proof (cases "field ?data ''chats''")
        case None
        then show ?thesis by simp
      next
        case (Some v)
        with assms(1) show ?thesis by (cases v) auto
      qed
      then obtain c where c: "?cs = JObj c" by blast
      have "key_of ?cur \<in> set (object_keys ?cs')"
      proof (cases "present (lookup ?cs (key_of ?cur))")
        case t: True
        then have "key_of ?cur \<in> set (map fst c)"
          unfolding c using present_lookup [of c "key_of ?cur"] assms(2) by blast
        with t show ?thesis unfolding c by simp
      next
        case f: False
        have "key_of ?cur \<noteq> ''__proto__''" using assms(2) proto_inherited by auto
        then show ?thesis
          unfolding c using f set_member_keys [of "key_of ?cur" c "JArr []"] unfolding c by simp
      qed
      moreover have "loadHistoryState pf d = JObj [(''current'', ?cur), (''chats'', ?cs')]"
        using False True by (simp add: loadHistoryState_def Let_def)
      ultimately show ?thesis
        by (simp add: current_resolves_def chats_def)
    qed
  qed
qed

lemma set_chat_JObj:
  "map_of kvs ''chats'' = Some (JObj cs) \<Longrightarrow>
     set_chat (JObj kvs) n v = JObj (obj_put kvs ''chats'' (JObj (obj_put cs n v)))"
  by (simp add: set_chat_def chats_def)

lemma chat_new_resolves:
  assumes "historyState st = JObj kvs" and "map_of kvs ''chats'' = Some (JObj cs)"
    and "current_resolves (historyState st)"
  shows "current_resolves (historyState (chat_new pf n st))"
proof (cases "present (chat (historyState st) n)")
  case True
  with assms(3) show ?thesis by (simp add: chat_new_def)
next
  case False
  then have "\<not> present (lookup (JObj cs) n)" using assms(1,2) by (simp add: chat_def chats_def)
  then have k: "n \<in> fst ` set cs \<or> n \<noteq> ''__proto__''" by (rule absent_lookup)
  let ?hs = "JObj (obj_put (obj_put kvs ''chats'' (JObj (obj_put cs n (JArr [])))) ''current'' (JStr n))"
  have "historyState (chat_new pf n st) = ?hs"
    using False by (simp add: chat_new_def Let_def assms(1) set_chat_JObj [OF assms(2)])
  moreover have "chats ?hs = JObj (obj_put cs n (JArr []))"
    by (simp add: chats_put_current chats_put_chats)
  moreover have "n \<in> set (map fst (obj_put cs n (JArr [])))"
    unfolding obj_put_keys [OF k] by simp
  ultimately show ?thesis
    unfolding current_resolves_def by (simp add: map_of_put_current key_of_def)
qed

lemma chat_use_resolves:
  assumes "historyState st = JObj kvs" and "map_of kvs ''chats'' = Some (JObj cs)"
    and "current_resolves (historyState st)" and "chat_use pf n st = Returned st'"
  shows "current_resolves (historyState st')"
proof (cases "n = [] \<or> \<not> present (chat (historyState st) n)")
  case True
  then have "chat_use pf n st = Returned st" by (cases "n = []") (simp_all add: chat_use_def)
  with assms(3,4) show ?thesis by simp
next
  case False
  let ?hs = "JObj (obj_put kvs ''current'' (JStr n))"
  have c: "chats ?hs = JObj cs"
    using assms(2) by (simp add: chats_def map_of_put_current)
  have u: "chat_use pf n st
             = (case spread (lookup (JObj cs) n) of
                  Threw e \<Rightarrow> Threw e
                | Returned xs \<Rightarrow>
                    Returned (st\<lparr>historyState := ?hs, currentChat := JStr n,
                                history := the (lookup (JObj cs) n),
                                messages := system_message (cfg st) # xs,
                                env := saveHistoryState pf ?hs (env st)\<rparr>))"
    using False assms(1) by (simp add: chat_use_def Let_def chat_def c split: completion.splits)
  from u assms(4) have h: "historyState st' = ?hs"
    by (cases "spread (lookup (JObj cs) n)") auto
  from u assms(4) obtain xs where "spread (lookup (JObj cs) n) = Returned xs"
    by (cases "spread (lookup (JObj cs) n)") auto
  then obtain v where "lookup (JObj cs) n = Some (Data v)"
    by (auto simp: spread_def split: option.splits looked_up.splits)
  then have "map_of cs n = Some v"
    by (cases "map_of cs n") (auto simp: lookup_def split: if_splits)
  then have "(n, v) \<in> set cs" by (rule map_of_SomeD)
  then have "n \<in> set (map fst cs)" by force
  then show ?thesis
    unfolding h current_resolves_def by (simp add: map_of_put_current c key_of_def)
qed

lemma clear_resolves:
  assumes "historyState st = JObj kvs" and "map_of kvs ''chats'' = Some (JObj cs)"
    and "current_resolves (historyState st)"
  shows "current_resolves (historyState (clear_cmd pf st))"
proof -
  let ?k = "key_of (currentChat st)"
  let ?hs = "JObj (obj_put kvs ''chats'' (JObj (obj_put cs ?k (JArr []))))"
  have h: "historyState (clear_cmd pf st) = ?hs"
    by (simp add: clear_cmd_def Let_def assms(1) set_chat_JObj [OF assms(2)])
  have c: "chats ?hs = JObj (obj_put cs ?k (JArr []))" by (rule chats_put_chats)
  from assms obtain v where v: "map_of kvs ''current'' = Some v" "key_of v \<in> set (map fst cs)"
    by (auto simp: current_resolves_def chats_def split: option.splits)
  then have "key_of v \<in> set (map fst (obj_put cs ?k (JArr [])))"
    using obj_put_keeps_keys [of cs ?k "JArr []"] by blast
  with v(1) show ?thesis
    unfolding h current_resolves_def c by (simp add: map_of_put_chats)
qed

end
